theory Spec2Isabelle
  imports Main "HOL-Library.Sublist" "HOL-Library.AList" "HOL-Library.Word"
    "HOL-Library.Multiset"
begin

section \<open>The Exchange downloader (src/download/exchangeDownloader.ts)\<close>

subsection \<open>JavaScript values\<close>

text \<open>
  The module reads registry responses as untyped JSON and copies property values into its
  descriptors without validating them, so the fields of every record below hold a
  JavaScript value. \<open>JUndefined\<close> is the value of a missing property and of a
  \<^verbatim>\<open>return;\<close>. An object is the list of its own properties. A number is held as
  the two things the module can observe of it: whether it is truthy (it is not
  \<^verbatim>\<open>0\<close>, \<^verbatim>\<open>-0\<close> or \<^verbatim>\<open>NaN\<close>) and the string it converts to. The module never
  computes with a number and never compares two.
\<close>

datatype jsval =
    JUndefined
  | JNull
  | JBool bool
  | JNum bool string
  | JStr string
  | JArr "jsval list"
  | JObj "(string \<times> jsval) list"

datatype error =
    TypeError
  | External string

text \<open>
  \<open>TypeError\<close> is what the module itself raises: reading a property of
  \<^verbatim>\<open>undefined\<close> or \<^verbatim>\<open>null\<close>, or calling \<^verbatim>\<open>forEach\<close> on a value
  that is not an array. \<open>External\<close> errors come from the collaborators (network, file
  system, body parsing), which may also report a \<open>TypeError\<close>.
\<close>

text \<open>JavaScript truthiness, as used by \<^verbatim>\<open>!x\<close>, \<^verbatim>\<open>x ? a : b\<close>, \<^verbatim>\<open>&&\<close> and \<^verbatim>\<open>||\<close>.\<close>

fun truthy :: "jsval \<Rightarrow> bool" where
  "truthy JUndefined = False"
| "truthy JNull = False"
| "truthy (JBool b) = b"
| "truthy (JNum t s) = t"
| "truthy (JStr s) = (s \<noteq> [])"
| "truthy (JArr xs) = True"
| "truthy (JObj kvs) = True"

text \<open>
  The decimal form of a natural number, for the status of a response in a message (a
  status has three digits). \<open>digit_char\<close> is applied to numbers below ten only.
\<close>

fun digit_char :: "nat \<Rightarrow> char" where
  "digit_char n = ''0123456789'' ! n"

fun show_nat :: "nat \<Rightarrow> string" where
  "show_nat n = (if n < 10 then [digit_char n] else show_nat (n div 10) @ [digit_char (n mod 10)])"

declare show_nat.simps [simp del]

fun join_comma :: "string list \<Rightarrow> string" where
  "join_comma [] = []"
| "join_comma [s] = s"
| "join_comma (s # t # ss) = s @ '','' @ join_comma (t # ss)"

text \<open>
  String conversion, as a template literal \<^verbatim>\<open>`${x}`\<close>, a computed property key and
  \<^verbatim>\<open>RegExp.prototype.test\<close> apply it. An array joins its elements with commas, an
  \<^verbatim>\<open>undefined\<close> or \<^verbatim>\<open>null\<close> element printing as the empty string.
\<close>

fun js_string :: "jsval \<Rightarrow> string" where
  "js_string JUndefined = ''undefined''"
| "js_string JNull = ''null''"
| "js_string (JBool b) = (if b then ''true'' else ''false'')"
| "js_string (JNum t s) = s"
| "js_string (JStr s) = s"
| "js_string (JArr xs) =
     join_comma (map (\<lambda>x. if x = JUndefined \<or> x = JNull then [] else js_string x) xs)"
| "js_string (JObj kvs) = ''[object Object]''"

text \<open>
  Property read \<^verbatim>\<open>v[k]\<close> for the fixed keys of this module (none of them is a member of
  a built-in prototype): it throws a \<open>TypeError\<close> on \<^verbatim>\<open>undefined\<close> and
  \<^verbatim>\<open>null\<close>, the \<open>nullish\<close> values; on any other value it is \<open>field k v\<close>, the
  object's own property or \<^verbatim>\<open>undefined\<close>. Each function below tests \<open>nullish\<close>
  where its first read of a value happens and uses \<open>field\<close> for the reads.
\<close>

fun nullish :: "jsval \<Rightarrow> bool" where
  "nullish JUndefined = True"
| "nullish JNull = True"
| "nullish v = False"

fun field :: "string \<Rightarrow> jsval \<Rightarrow> jsval" where
  "field k (JObj kvs) = (case map_of kvs k of None \<Rightarrow> JUndefined | Some v \<Rightarrow> v)"
| "field k v = JUndefined"

subsection \<open>Descriptors (exchangeTypes: RestApi, FileInfo, Categories)\<close>

text \<open>
  Modelled from the spec: the declarations of \<^verbatim>\<open>RestApi\<close>, \<^verbatim>\<open>FileInfo\<close> and
  \<^verbatim>\<open>Categories\<close> (the module \<^verbatim>\<open>exchangeTypes\<close>) are not among the sources. The
  records have the fields the object literals of \<^verbatim>\<open>convertResponseToRestApi\<close> and
  \<^verbatim>\<open>getFileByClassifier\<close> build, which are the attributes the specification lists for
  its AssetDescriptor and ArchiveFileInfo.
\<close>

record FileInfo =
  classifier :: jsval
  packaging :: jsval
  externalLink :: jsval
  createdDate :: jsval
  md5 :: jsval
  sha1 :: jsval
  mainFile :: jsval

text \<open>
  \<open>Categories\<close> is a dictionary object: the list of its own properties, each key
  once; it is read through \<open>map_of\<close>, the order of the list carries no meaning.
  \<open>fatRaml\<close> is \<open>None\<close> where the property holds \<^verbatim>\<open>undefined\<close>. The field
  \<^verbatim>\<open>id\<close> is called \<open>id_r\<close>.
\<close>

type_synonym Categories = "(string \<times> jsval) list"

record RestApi =
  id_r :: jsval
  name :: jsval
  description :: jsval
  updatedDate :: jsval
  groupId :: jsval
  assetId :: jsval
  version :: jsval
  categories :: Categories
  fatRaml :: "FileInfo option"

subsection \<open>Mapping a registry response to a descriptor\<close>

text \<open>
  \<^verbatim>\<open>cats[category["key"]] = category["value"]\<close>: the key is converted to a string; an
  assignment to an existing key replaces its value in place, one to a new key appends.
  An assignment to the key \<^verbatim>\<open>__proto__\<close> of a plain object reaches the prototype
  setter and creates no own property.
\<close>

fun mapCategories_loop :: "jsval list \<Rightarrow> Categories \<Rightarrow> error + Categories" where
  "mapCategories_loop [] cats = Inr cats"
| "mapCategories_loop (category # rest) cats =
     (if nullish category then Inl TypeError
      else mapCategories_loop rest
             (if js_string (field ''key'' category) = ''__proto__'' then cats
              else AList.update (js_string (field ''key'' category)) (field ''value'' category) cats))"

fun mapCategories :: "jsval \<Rightarrow> error + Categories" where
  "mapCategories (JArr cs) = mapCategories_loop cs []"
| "mapCategories v = Inl TypeError"

text \<open>The object literal that \<^verbatim>\<open>getFileByClassifier\<close> builds on a match.\<close>

definition file_literal :: "jsval \<Rightarrow> FileInfo" where
  "file_literal file =
     \<lparr> classifier = field ''classifier'' file,
       packaging = field ''packaging'' file,
       externalLink = field ''externalLink'' file,
       createdDate = field ''createdDate'' file,
       md5 = field ''md5'' file,
       sha1 = field ''sha1'' file,
       mainFile = field ''mainFile'' file \<rparr>"

text \<open>
  The scan of \<^verbatim>\<open>getFileByClassifier\<close>: \<open>myFile\<close> starts as \<^verbatim>\<open>undefined\<close> and is
  assigned on every entry whose classifier is strictly equal to the requested string. The
  module calls it with the string \<^verbatim>\<open>"fat-raml"\<close> only.
\<close>

fun getFileByClassifier_loop ::
  "jsval list \<Rightarrow> string \<Rightarrow> FileInfo option \<Rightarrow> error + FileInfo option" where
  "getFileByClassifier_loop [] c myFile = Inr myFile"
| "getFileByClassifier_loop (file # rest) c myFile =
     (if nullish file then Inl TypeError
      else if field ''classifier'' file = JStr c
           then getFileByClassifier_loop rest c (Some (file_literal file))
           else getFileByClassifier_loop rest c myFile)"

fun getFileByClassifier :: "jsval \<Rightarrow> string \<Rightarrow> error + FileInfo option" where
  "getFileByClassifier (JArr files) c = getFileByClassifier_loop files c None"
| "getFileByClassifier v c = Inl TypeError"

definition convertResponseToRestApi :: "jsval \<Rightarrow> error + RestApi" where
  "convertResponseToRestApi apiResponse =
     (if nullish apiResponse then Inl TypeError
      else case mapCategories (field ''categories'' apiResponse) of
             Inl e \<Rightarrow> Inl e
           | Inr cats \<Rightarrow>
               (case getFileByClassifier (field ''files'' apiResponse) ''fat-raml'' of
                  Inl e \<Rightarrow> Inl e
                | Inr file \<Rightarrow>
                    Inr \<lparr> id_r = field ''id'' apiResponse,
                          name = field ''name'' apiResponse,
                          description = field ''description'' apiResponse,
                          updatedDate = field ''updatedDate'' apiResponse,
                          groupId = field ''groupId'' apiResponse,
                          assetId = field ''assetId'' apiResponse,
                          version = field ''version'' apiResponse,
                          categories = cats,
                          fatRaml = file \<rparr>))"

subsection \<open>The collaborators: network, file system, logger\<close>

type_synonym bytes = "8 word list"

text \<open>
  A \<^verbatim>\<open>Response\<close> of node-fetch, as far as the module reads it. \<open>arrayBuffer\<close> and
  \<open>json\<close> are what the methods of those names settle to.
\<close>

record Response =
  ok :: bool
  status :: nat
  statusText :: string
  arrayBuffer :: "error + bytes"
  json :: "error + jsval"

text \<open>
  The environment gives the behaviour of the libraries the module calls:
  \<^item> \<open>fetch_result input headers\<close> is what \<^verbatim>\<open>fetch(input, {headers})\<close> settles
    to, the same every time the request is made. The input is the value the module hands
    to \<^verbatim>\<open>fetch\<close>, a string where the module builds the URL itself; what URL the
    library makes of another value is the library's business. \<^verbatim>\<open>fetch\<close> rejects on a network failure
    only; a response with a non-success status is a fulfilled promise whose \<open>ok\<close> is
    false;
  \<^item> \<open>ensureDir_error\<close> and \<open>writeFile_error\<close> say where
    \<^verbatim>\<open>ensureDirSync\<close> and \<^verbatim>\<open>writeFileSync\<close> throw;
  \<^item> \<open>path_join\<close> is \<^verbatim>\<open>path.join\<close>.
\<close>

record env =
  fetch_result :: "jsval \<Rightarrow> (string \<times> string) list \<Rightarrow> error + Response"
  ensureDir_error :: "string \<Rightarrow> error option"
  writeFile_error :: "string \<Rightarrow> error option"
  path_join :: "string \<Rightarrow> string \<Rightarrow> string"

text \<open>
  The world records every effect of the module in the order it happens, together with
  the directories and files that exist:
  \<^item> \<open>Warn message hint\<close> is a call \<^verbatim>\<open>ramlToolLogger.warn(message, hint)\<close>.
    Modelled from the spec: the logger (\<^verbatim>\<open>common/logger\<close>) is not among the sources;
    it is the specification's warning channel, which accepts a message and a hint;
  \<^item> \<open>EnsureDir dir\<close> is a call of \<^verbatim>\<open>ensureDirSync\<close> that returned;
  \<^item> \<open>Fetch input headers\<close> is a call of \<^verbatim>\<open>fetch\<close>, whatever comes of it;
  \<^item> \<open>WriteFile file_path data\<close> is a call of \<^verbatim>\<open>writeFileSync\<close> that returned.
\<close>

datatype event =
    Warn string string
  | EnsureDir string
  | Fetch jsval "(string \<times> string) list"
  | WriteFile string bytes

record world =
  trace :: "event list"
  dirs :: "string set"
  files :: "string \<rightharpoonup> bytes"

definition emit :: "event \<Rightarrow> world \<Rightarrow> world" where
  "emit ev w = w\<lparr>trace := trace w @ [ev]\<rparr>"

definition ensureDirSync :: "env \<Rightarrow> string \<Rightarrow> world \<Rightarrow> error + world" where
  "ensureDirSync E dir w =
     (case ensureDir_error E dir of
        Some e \<Rightarrow> Inl e
      | None \<Rightarrow> Inr (emit (EnsureDir dir) (w\<lparr>dirs := insert dir (dirs w)\<rparr>)))"

definition writeFileSync :: "env \<Rightarrow> string \<Rightarrow> bytes \<Rightarrow> world \<Rightarrow> error + world" where
  "writeFileSync E file_path data w =
     (case writeFile_error E file_path of
        Some e \<Rightarrow> Inl e
      | None \<Rightarrow> Inr (emit (WriteFile file_path data) (w\<lparr>files := (files w)(file_path \<mapsto> data)\<rparr>)))"

subsection \<open>Constants\<close>

definition DEFAULT_DOWNLOAD_FOLDER :: string where
  "DEFAULT_DOWNLOAD_FOLDER = ''download''"

definition ANYPOINT_BASE_URI :: string where
  "ANYPOINT_BASE_URI = ''https://anypoint.mulesoft.com/exchange/api/v2''"

definition ANYPOINT_BASE_URI_WITHOUT_VERSION :: string where
  "ANYPOINT_BASE_URI_WITHOUT_VERSION = ''https://anypoint.mulesoft.com/exchange''"

text \<open>A parameter with a default value: \<open>None\<close> is the omitted argument.\<close>

definition folder_or_default :: "string option \<Rightarrow> string" where
  "folder_or_default destinationFolder =
     (case destinationFolder of None \<Rightarrow> DEFAULT_DOWNLOAD_FOLDER | Some d \<Rightarrow> d)"

subsection \<open>downloadRestApi\<close>

definition missing_id_message :: "RestApi \<Rightarrow> string" where
  "missing_id_message restApi =
     ''Failed to download '' @ [CHR 0x27] @ js_string (name restApi) @ [CHR 0x27] @
     '' RAML as Fat RAML download information is missing.''"

definition manual_download_url :: "RestApi \<Rightarrow> string" where
  "manual_download_url restApi =
     ANYPOINT_BASE_URI_WITHOUT_VERSION @ ''/'' @ js_string (groupId restApi) @ ''/'' @
     js_string (assetId restApi)"

definition missing_id_hint :: "RestApi \<Rightarrow> string" where
  "missing_id_hint restApi =
     ''Please download it manually from '' @ manual_download_url restApi @
     '' and update the relevant details in apis/api-config.json''"

text \<open>
  An \<^verbatim>\<open>async\<close> function runs synchronously up to its first \<^verbatim>\<open>await\<close> and hands
  a promise back. \<open>downloadRestApi_start\<close> is that first part of
  \<^verbatim>\<open>downloadRestApi\<close>: the promise is settled already (the skip, or a throw before
  the request was issued, which rejects the promise), or it waits for the response with
  the path of the file to write.
\<close>

datatype download =
    Settled "error + Response option"
  | Awaiting jsval string

definition downloadRestApi_start ::
  "env \<Rightarrow> RestApi \<Rightarrow> string option \<Rightarrow> world \<Rightarrow> download \<times> world" where
  "downloadRestApi_start E restApi destinationFolder w =
     (if \<not> truthy (id_r restApi)
      then (Settled (Inr None),
            emit (Warn (missing_id_message restApi) (missing_id_hint restApi)) w)
      else case ensureDirSync E (folder_or_default destinationFolder) w of
             Inl e \<Rightarrow> (Settled (Inl e), w)
           | Inr w1 \<Rightarrow>
               (let zipFilePath =
                      path_join E (folder_or_default destinationFolder)
                        (js_string (assetId restApi) @ ''.zip'')
                in case fatRaml restApi of
                     None \<Rightarrow> (Settled (Inl TypeError), w1)
                   | Some f \<Rightarrow>
                       (Awaiting (externalLink f) zipFilePath,
                        emit (Fetch (externalLink f) []) w1)))"

text \<open>
  The rest of \<^verbatim>\<open>downloadRestApi\<close>, run when the response arrives: read the body, write
  the file, return the response. The status of the response is not looked at.
\<close>

definition downloadRestApi_finish ::
  "env \<Rightarrow> download \<Rightarrow> world \<Rightarrow> (error + Response option) \<times> world" where
  "downloadRestApi_finish E d w =
     (case d of
        Settled r \<Rightarrow> (r, w)
      | Awaiting link zipFilePath \<Rightarrow>
          (case fetch_result E link [] of
             Inl e \<Rightarrow> (Inl e, w)
           | Inr response \<Rightarrow>
               (case arrayBuffer response of
                  Inl e \<Rightarrow> (Inl e, w)
                | Inr buf \<Rightarrow>
                    (case writeFileSync E zipFilePath buf w of
                       Inl e \<Rightarrow> (Inl e, w)
                     | Inr w' \<Rightarrow> (Inr (Some response), w')))))"

text \<open>The call awaited on its own. \<open>Inr None\<close> is the \<^verbatim>\<open>return;\<close> of the skip.\<close>

definition downloadRestApi ::
  "env \<Rightarrow> RestApi \<Rightarrow> string option \<Rightarrow> world \<Rightarrow> (error + Response option) \<times> world" where
  "downloadRestApi E restApi destinationFolder w =
     (case downloadRestApi_start E restApi destinationFolder w of
        (d, w1) \<Rightarrow> downloadRestApi_finish E d w1)"

subsection \<open>downloadRestApis\<close>

text \<open>
  The \<^verbatim>\<open>forEach\<close> of \<^verbatim>\<open>downloadRestApis\<close>: every call of
  \<^verbatim>\<open>downloadRestApi\<close> runs up to its first \<^verbatim>\<open>await\<close>, and its promise is
  pushed.
\<close>

fun downloadRestApis_loop ::
  "env \<Rightarrow> RestApi list \<Rightarrow> string \<Rightarrow> world \<Rightarrow> download list \<times> world" where
  "downloadRestApis_loop E [] destinationFolder w = ([], w)"
| "downloadRestApis_loop E (api # rest) destinationFolder w =
     (case downloadRestApi_start E api (Some destinationFolder) w of
        (d, w1) \<Rightarrow>
          (case downloadRestApis_loop E rest destinationFolder w1 of
             (ds, w2) \<Rightarrow> (d # ds, w2)))"

text \<open>
  The order in which the responses arrive is not the module's to choose. A schedule is a
  list of numbers: each step takes, of the downloads still waiting, the one at the
  position the next number gives (modulo how many are left; the first one when the
  schedule is used up).
\<close>

definition pick :: "nat list \<Rightarrow> nat \<Rightarrow> nat" where
  "pick sched n = (case sched of [] \<Rightarrow> 0 | c # cs \<Rightarrow> c mod n)"

function arrival_order :: "nat list \<Rightarrow> 'a list \<Rightarrow> 'a list" where
  "arrival_order sched [] = []"
| "arrival_order sched (x # xs) =
     (let k = pick sched (Suc (length xs))
      in (x # xs) ! k # arrival_order (tl sched) (take k (x # xs) @ drop (Suc k) (x # xs)))"
  by pat_completeness auto
termination
  by (relation "measure (\<lambda>(sched, xs). length xs)") (auto simp: pick_def split: list.splits)

fun is_awaiting :: "download \<Rightarrow> bool" where
  "is_awaiting (Awaiting link zipFilePath) = True"
| "is_awaiting (Settled r) = False"

fun settled_results :: "download list \<Rightarrow> (error + Response option) list" where
  "settled_results [] = []"
| "settled_results (Settled r # ds) = r # settled_results ds"
| "settled_results (Awaiting link zipFilePath # ds) = settled_results ds"

fun finish_all ::
  "env \<Rightarrow> download list \<Rightarrow> world \<Rightarrow> (error + Response option) list \<times> world" where
  "finish_all E [] w = ([], w)"
| "finish_all E (d # ds) w =
     (case downloadRestApi_finish E d w of
        (r, w1) \<Rightarrow> (case finish_all E ds w1 of (rs, w2) \<Rightarrow> (r # rs, w2)))"

fun first_error :: "(error + 'a) list \<Rightarrow> error option" where
  "first_error [] = None"
| "first_error (Inl e # rs) = Some e"
| "first_error (Inr v # rs) = first_error rs"

text \<open>
  \<^verbatim>\<open>Promise.all(promises).then(() => destinationFolder)\<close>: the aggregate rejects with
  the reason of the first promise to reject, and fulfils with the folder when none does.
  The promises that were settled when the loop ended are seen first, in the order of the
  array; the others follow as their responses arrive. A rejection cancels nothing: every
  download runs to its end, and the world returned is the one after the last of them.
\<close>

definition downloadRestApis ::
  "env \<Rightarrow> nat list \<Rightarrow> RestApi list \<Rightarrow> string option \<Rightarrow> world \<Rightarrow> (error + string) \<times> world" where
  "downloadRestApis E sched restApi destinationFolder w =
     (case downloadRestApis_loop E restApi (folder_or_default destinationFolder) w of
        (promises, w1) \<Rightarrow>
          (case finish_all E (arrival_order sched (filter is_awaiting promises)) w1 of
             (late, w2) \<Rightarrow>
               (case first_error (settled_results promises @ late) of
                  Some e \<Rightarrow> (Inl e, w2)
                | None \<Rightarrow> (Inr (folder_or_default destinationFolder), w2))))"

subsection \<open>getAsset\<close>

definition asset_url :: "string \<Rightarrow> string" where
  "asset_url assetId_p = ANYPOINT_BASE_URI @ ''/assets/'' @ assetId_p"

definition bearer :: "string \<Rightarrow> (string \<times> string) list" where
  "bearer accessToken = [(''Authorization'', ''Bearer '' @ accessToken)]"

definition getAsset_message :: "string \<Rightarrow> Response \<Rightarrow> string" where
  "getAsset_message assetId_p res =
     ''Failed to get information about '' @ assetId_p @ '' from exchange: '' @
     show_nat (status res) @ '' - '' @ statusText res"

definition getAsset_hint :: "string \<Rightarrow> string" where
  "getAsset_hint assetId_p =
     ''Please get it manually from '' @ asset_url assetId_p @
     '' and update the relevant details in apis/api-config.json''"

text \<open>\<open>Inr JUndefined\<close> is the \<^verbatim>\<open>return;\<close> after the warning.\<close>

definition getAsset :: "env \<Rightarrow> string \<Rightarrow> string \<Rightarrow> world \<Rightarrow> (error + jsval) \<times> world" where
  "getAsset E accessToken assetId_p w =
     (let w1 = emit (Fetch (JStr (asset_url assetId_p)) (bearer accessToken)) w
      in case fetch_result E (JStr (asset_url assetId_p)) (bearer accessToken) of
           Inl e \<Rightarrow> (Inl e, w1)
         | Inr res \<Rightarrow>
             if \<not> ok res
             then (Inr JUndefined,
                   emit (Warn (getAsset_message assetId_p res) (getAsset_hint assetId_p)) w1)
             else (case json res of
                     Inl e \<Rightarrow> (Inl e, w1)
                   | Inr body \<Rightarrow> (Inr body, w1)))"

subsection \<open>searchExchange\<close>

definition search_url :: "string \<Rightarrow> string" where
  "search_url searchString = ANYPOINT_BASE_URI @ ''/assets?search='' @ searchString"

fun searchExchange_loop :: "jsval list \<Rightarrow> RestApi list \<Rightarrow> error + RestApi list" where
  "searchExchange_loop [] apis = Inr apis"
| "searchExchange_loop (restApi # rest) apis =
     (case convertResponseToRestApi restApi of
        Inl e \<Rightarrow> Inl e
      | Inr api \<Rightarrow> searchExchange_loop rest (apis @ [api]))"

definition searchExchange ::
  "env \<Rightarrow> string \<Rightarrow> string \<Rightarrow> world \<Rightarrow> (error + RestApi list) \<times> world" where
  "searchExchange E accessToken searchString w =
     (let w1 = emit (Fetch (JStr (search_url searchString)) (bearer accessToken)) w
      in case fetch_result E (JStr (search_url searchString)) (bearer accessToken) of
           Inl e \<Rightarrow> (Inl e, w1)
         | Inr res \<Rightarrow>
             (case json res of
                Inl e \<Rightarrow> (Inl e, w1)
              | Inr restApis \<Rightarrow>
                  (case restApis of
                     JArr xs \<Rightarrow> (searchExchange_loop xs [], w1)
                   | _ \<Rightarrow> (Inl TypeError, w1))))"

subsection \<open>getVersionByDeployment\<close>

text \<open>
  A \<^verbatim>\<open>RegExp\<close> object, as far as \<^verbatim>\<open>test\<close> reads and writes it. \<open>match_from s i\<close>
  is the pattern's own matching: the index at which the match ends when the pattern is
  matched against \<open>s\<close> from index \<open>i\<close>, or \<open>None\<close> when it does not match there.
  \<open>stateful\<close> says that the pattern has the global or the sticky flag; such a pattern
  starts at \<open>lastIndex\<close> and moves it, any other starts at 0 and leaves it alone.
\<close>

record RegExp =
  match_from :: "string \<Rightarrow> nat \<Rightarrow> nat option"
  stateful :: bool
  lastIndex :: nat

text \<open>\<^verbatim>\<open>RegExp.prototype.test\<close>: the answer and the object after the call.\<close>

definition test :: "RegExp \<Rightarrow> string \<Rightarrow> bool \<times> RegExp" where
  "test re s =
     (if stateful re
      then (if length s < lastIndex re then (False, re\<lparr>lastIndex := 0\<rparr>)
            else case match_from re s (lastIndex re) of
                   None \<Rightarrow> (False, re\<lparr>lastIndex := 0\<rparr>)
                 | Some e \<Rightarrow> (True, re\<lparr>lastIndex := e\<rparr>))
      else (case match_from re s 0 of
              None \<Rightarrow> (False, re)
            | Some e \<Rightarrow> (True, re)))"

text \<open>
  The callback of the scan over \<^verbatim>\<open>asset["instances"]\<close>, with the variable
  \<^verbatim>\<open>version\<close> and the pattern threaded through. The condition is
  \<^verbatim>\<open>instance.environmentName && deployment.test(instance.environmentName) && !version\<close>:
  \<^verbatim>\<open>test\<close> is called for every instance with a truthy environment name, also when a
  version is held already.
\<close>

fun instances_loop :: "RegExp \<Rightarrow> jsval list \<Rightarrow> jsval \<Rightarrow> (error + jsval) \<times> RegExp" where
  "instances_loop deployment [] version_v = (Inr version_v, deployment)"
| "instances_loop deployment (inst # rest) version_v =
     (if nullish inst then (Inl TypeError, deployment)
      else if truthy (field ''environmentName'' inst)
           then (case test deployment (js_string (field ''environmentName'' inst)) of
                   (matches, deployment') \<Rightarrow>
                     if matches \<and> \<not> truthy version_v
                     then instances_loop deployment' rest (field ''version'' inst)
                     else instances_loop deployment' rest version_v)
           else instances_loop deployment rest version_v)"

text \<open>The result, the world, and the pattern object as the call leaves it.\<close>

definition getVersionByDeployment ::
  "env \<Rightarrow> string \<Rightarrow> RestApi \<Rightarrow> RegExp \<Rightarrow> world \<Rightarrow> (error + jsval) \<times> world \<times> RegExp" where
  "getVersionByDeployment E accessToken restApi deployment w =
     (case getAsset E accessToken
             (js_string (groupId restApi) @ ''/'' @ js_string (assetId restApi)) w of
        (Inl e, w1) \<Rightarrow> (Inl e, w1, deployment)
      | (Inr asset, w1) \<Rightarrow>
          if \<not> truthy asset then (Inr JUndefined, w1, deployment)
          else (case field ''instances'' asset of
                  JArr insts \<Rightarrow>
                    (case instances_loop deployment insts JNull of
                       (Inl e, deployment') \<Rightarrow> (Inl e, w1, deployment')
                     | (Inr version_v, deployment') \<Rightarrow>
                         (Inr (if truthy version_v then version_v else field ''version'' asset),
                          w1, deployment'))
                | _ \<Rightarrow> (Inl TypeError, w1, deployment)))"

subsection \<open>getSpecificApi\<close>

text \<open>
  \<open>Inr None\<close> is the \<^verbatim>\<open>null\<close> result. The version is a JavaScript value, so that
  the omitted argument (\<open>JUndefined\<close>) is an input.
\<close>

definition getSpecificApi ::
  "env \<Rightarrow> string \<Rightarrow> string \<Rightarrow> string \<Rightarrow> jsval \<Rightarrow> world \<Rightarrow> (error + RestApi option) \<times> world" where
  "getSpecificApi E accessToken groupId_p assetId_p version_p w =
     (if truthy version_p
      then (case getAsset E accessToken
                   (groupId_p @ ''/'' @ assetId_p @ ''/'' @ js_string version_p) w of
              (Inl e, w1) \<Rightarrow> (Inl e, w1)
            | (Inr api, w1) \<Rightarrow>
                if truthy api
                then (case convertResponseToRestApi api of
                        Inl e \<Rightarrow> (Inl e, w1)
                      | Inr r \<Rightarrow> (Inr (Some r), w1))
                else (Inr None, w1))
      else (Inr None, w))"

section \<open>Vocabulary of the statements\<close>

text \<open>
  The pattern matches the environment name of an instance: the name is truthy and the
  pattern, matched against it from the start, matches.
\<close>

definition selects :: "RegExp \<Rightarrow> jsval \<Rightarrow> bool" where
  "selects deployment inst \<longleftrightarrow>
     truthy (field ''environmentName'' inst) \<and>
     match_from deployment (js_string (field ''environmentName'' inst)) 0 \<noteq> None"

text \<open>
  The instances on which the \<^verbatim>\<open>test\<close> calls of a scan answer true, in listed order:
  one call for each instance with a truthy environment name, each on the pattern object
  as the call before left it.
\<close>

fun tested_true :: "RegExp \<Rightarrow> jsval list \<Rightarrow> jsval list" where
  "tested_true deployment [] = []"
| "tested_true deployment (inst # rest) =
     (if truthy (field ''environmentName'' inst)
      then (if fst (test deployment (js_string (field ''environmentName'' inst)))
            then inst # tested_true
                          (snd (test deployment (js_string (field ''environmentName'' inst)))) rest
            else tested_true
                   (snd (test deployment (js_string (field ''environmentName'' inst)))) rest)
      else tested_true deployment rest)"

text \<open>The elements of a value that is an array.\<close>

fun elements :: "jsval \<Rightarrow> jsval list option" where
  "elements (JArr xs) = Some xs"
| "elements v = None"

text \<open>
  The shape the module expects of an asset object of the registry: \<^verbatim>\<open>categories\<close>
  and \<^verbatim>\<open>files\<close> are arrays, their entries are not \<^verbatim>\<open>null\<close>, and no category is
  keyed \<^verbatim>\<open>__proto__\<close>.
\<close>

definition asset_shaped :: "jsval \<Rightarrow> bool" where
  "asset_shaped obj \<longleftrightarrow>
     \<not> nullish obj \<and>
     (case elements (field ''categories'' obj) of
        None \<Rightarrow> False
      | Some cs \<Rightarrow>
          list_all (\<lambda>c. \<not> nullish c \<and> js_string (field ''key'' c) \<noteq> ''__proto__'') cs) \<and>
     (case elements (field ''files'' obj) of
        None \<Rightarrow> False
      | Some fs \<Rightarrow> list_all (\<lambda>f. \<not> nullish f) fs)"

text \<open>
  The specification's words for the two derived fields of a descriptor. Category
  flattening: the \<^verbatim>\<open>{key, value}\<close> pairs read as a mapping from key to value, the pair
  listed last deciding where a key repeats. Canonical-file selection: the file entry
  classified \<^verbatim>\<open>fat-raml\<close>, the last one where there are several, none where there is
  none.
\<close>

definition spec_flatten :: "jsval list \<Rightarrow> string \<rightharpoonup> jsval" where
  "spec_flatten cs =
     map_of (rev (map (\<lambda>c. (js_string (field ''key'' c), field ''value'' c)) cs))"

definition spec_canonical_file :: "jsval list \<Rightarrow> FileInfo option" where
  "spec_canonical_file fs =
     (case filter (\<lambda>f. field ''classifier'' f = JStr ''fat-raml'') fs of
        [] \<Rightarrow> None
      | m # ms \<Rightarrow> Some (file_literal (last (m # ms))))"

text \<open>A descriptor describes an asset object: the seven copied fields and the two derived ones.\<close>

definition describes :: "jsval \<Rightarrow> RestApi \<Rightarrow> bool" where
  "describes obj d \<longleftrightarrow>
     id_r d = field ''id'' obj \<and> name d = field ''name'' obj \<and>
     description d = field ''description'' obj \<and> updatedDate d = field ''updatedDate'' obj \<and>
     groupId d = field ''groupId'' obj \<and> assetId d = field ''assetId'' obj \<and>
     version d = field ''version'' obj \<and>
     map_of (categories d) = spec_flatten (the (elements (field ''categories'' obj))) \<and>
     fatRaml d = spec_canonical_file (the (elements (field ''files'' obj)))"

fun is_write :: "event \<Rightarrow> bool" where
  "is_write (WriteFile file_path data) = True"
| "is_write ev = False"

text \<open>
  The promise a descriptor's download starts with, and what a download settles to: neither
  depends on the world the call runs in, so they are read off a run in the empty one.
\<close>

definition promise_of :: "env \<Rightarrow> string \<Rightarrow> RestApi \<Rightarrow> download" where
  "promise_of E destinationFolder restApi =
     fst (downloadRestApi_start E restApi (Some destinationFolder)
            \<lparr> trace = [], dirs = {}, files = Map.empty \<rparr>)"

definition result_of :: "env \<Rightarrow> download \<Rightarrow> error + Response option" where
  "result_of E d =
     fst (downloadRestApi_finish E d \<lparr> trace = [], dirs = {}, files = Map.empty \<rparr>)"

text \<open>
  A download whose request is issued in the loop of \<open>downloadRestApis\<close>: the descriptor
  has an id and an archive entry, and ensuring the folder succeeds. Every other download
  is settled when the loop ends.
\<close>

definition requested :: "env \<Rightarrow> string \<Rightarrow> RestApi \<Rightarrow> bool" where
  "requested E destinationFolder restApi \<longleftrightarrow>
     truthy (id_r restApi) \<and> ensureDir_error E destinationFolder = None \<and>
     fatRaml restApi \<noteq> None"

text \<open>
  The order in which \<^verbatim>\<open>Promise.all\<close> sees the downloads settle: first those that
  were settled when the loop ended, in the order of the array, then those whose request
  was issued, in the order their responses arrive.
\<close>

definition settle_order :: "env \<Rightarrow> nat list \<Rightarrow> string \<Rightarrow> RestApi list \<Rightarrow> RestApi list" where
  "settle_order E sched destinationFolder apis =
     filter (\<lambda>api. \<not> requested E destinationFolder api) apis @
     arrival_order sched (filter (requested E destinationFolder) apis)"

section \<open>Example inputs\<close>

text \<open>Concrete registry data, collaborators and worlds, at which the theorems are run.\<close>

definition two_fat_files :: "jsval list" where
  "two_fat_files =
     [JObj [(''classifier'', JStr ''fat-raml''), (''externalLink'', JStr ''https://a/1.zip'')],
      JObj [(''classifier'', JStr ''raml''), (''externalLink'', JStr ''https://a/2.zip'')],
      JObj [(''classifier'', JStr ''fat-raml''), (''externalLink'', JStr ''https://a/3.zip'')]]"

definition zip_response :: Response where
  "zip_response =
     \<lparr> ok = True, status = 200, statusText = ''OK'',
       arrayBuffer = Inr [80, 75, 3, 4], json = Inl (External ''SyntaxError'') \<rparr>"

definition disk_env :: env where
  "disk_env =
     \<lparr> fetch_result = (\<lambda>input headers.
          if input = JStr ''https://cdn.example/shop.zip'' then Inr zip_response
          else Inl (External ''ENOTFOUND'')),
       ensureDir_error = (\<lambda>dir. None),
       writeFile_error = (\<lambda>file_path. None),
       path_join = (\<lambda>a b. a @ ''/'' @ b) \<rparr>"

definition stale_world :: world where
  "stale_world = \<lparr> trace = [], dirs = {}, files = [''download/shop.zip'' \<mapsto> [0, 0]] \<rparr>"

definition shop_file :: FileInfo where
  "shop_file =
     \<lparr> classifier = JStr ''fat-raml'', packaging = JStr ''zip'',
       externalLink = JStr ''https://cdn.example/shop.zip'', createdDate = JUndefined,
       md5 = JUndefined, sha1 = JUndefined, mainFile = JUndefined \<rparr>"

definition shop_api :: RestApi where
  "shop_api =
     \<lparr> id_r = JStr ''org/shop/1.0.0'', name = JStr ''Shop'', description = JUndefined,
       updatedDate = JUndefined, groupId = JStr ''org'', assetId = JStr ''shop'',
       version = JStr ''1.0.0'', categories = [], fatRaml = Some shop_file \<rparr>"

definition legacy_api :: RestApi where
  "legacy_api =
     \<lparr> id_r = JStr [], name = JStr ''Legacy'', description = JUndefined,
       updatedDate = JUndefined, groupId = JStr ''org'', assetId = JStr ''legacy'',
       version = JUndefined, categories = [], fatRaml = None \<rparr>"

definition shop_json :: jsval where
  "shop_json =
     JObj [(''id'', JStr ''org/shop/1.0.0''), (''name'', JStr ''Shop''),
           (''groupId'', JStr ''org''), (''assetId'', JStr ''shop''),
           (''version'', JStr ''1.0.0''),
           (''categories'',
              JArr [JObj [(''key'', JStr ''Layer''), (''value'', JArr [JStr ''Process''])],
                    JObj [(''key'', JStr ''Team''), (''value'', JArr [JStr ''Cart''])],
                    JObj [(''key'', JStr ''Layer''), (''value'', JArr [JStr ''System''])]]),
           (''files'', JArr two_fat_files),
           (''instances'',
              JArr [JObj [(''environmentName'', JStr ''prod-1''), (''version'', JStr ''2.0.0'')],
                    JObj [(''environmentName'', JStr ''stage''), (''version'', JStr ''1.9.0'')]])]"

definition docs_json :: jsval where
  "docs_json =
     JObj [(''id'', JStr ''org/docs/0.1.0''), (''name'', JStr ''Docs''),
           (''groupId'', JStr ''org''), (''assetId'', JStr ''docs''),
           (''version'', JStr ''0.1.0''), (''categories'', JArr []),
           (''files'',
              JArr [JObj [(''classifier'', JStr ''oas''),
                          (''externalLink'', JStr ''https://a/docs.json'')]]),
           (''instances'', JArr [])]"

definition draft_json :: jsval where
  "draft_json =
     JObj [(''id'', JStr ''org/draft/3.0.0''), (''version'', JStr ''3.0.0''),
           (''instances'',
              JArr [JObj [(''environmentName'', JStr ''prod-1''), (''version'', JStr [])],
                    JObj [(''environmentName'', JStr ''prod-2''), (''version'', JStr ''2.0.0'')]])]"

definition bare_json :: jsval where
  "bare_json = JObj [(''id'', JStr ''org/bare''), (''version'', JStr []), (''instances'', JArr [])]"

definition ok_json :: "jsval \<Rightarrow> Response" where
  "ok_json body =
     \<lparr> ok = True, status = 200, statusText = ''OK'',
       arrayBuffer = Inl (External ''body used already''), json = Inr body \<rparr>"

definition not_found :: Response where
  "not_found =
     \<lparr> ok = False, status = 404, statusText = ''Not Found'',
       arrayBuffer = Inr [110, 111], json = Inr (JObj [(''status'', JNum True ''404'')]) \<rparr>"

definition registry_env :: env where
  "registry_env =
     \<lparr> fetch_result = (\<lambda>input headers.
          if input = JStr ''https://anypoint.mulesoft.com/exchange/api/v2/assets/org/shop/1.0.0''
          then Inr (ok_json shop_json)
          else if input = JStr ''https://anypoint.mulesoft.com/exchange/api/v2/assets/org/shop''
          then Inr (ok_json shop_json)
          else if input = JStr ''https://anypoint.mulesoft.com/exchange/api/v2/assets/org/draft''
          then Inr (ok_json draft_json)
          else if input = JStr ''https://anypoint.mulesoft.com/exchange/api/v2/assets/org/bare''
          then Inr (ok_json bare_json)
          else if input = JStr ''https://anypoint.mulesoft.com/exchange/api/v2/assets?search=org''
          then Inr (ok_json (JArr [shop_json, docs_json]))
          else Inr not_found),
       ensureDir_error = (\<lambda>dir. None),
       writeFile_error = (\<lambda>file_path. None),
       path_join = (\<lambda>a b. a @ ''/'' @ b) \<rparr>"

definition empty_world :: world where
  "empty_world = \<lparr> trace = [], dirs = {}, files = Map.empty \<rparr>"

text \<open>
  The pattern \<^verbatim>\<open>/^prod/\<close>, and the same pattern with the global flag: it matches at
  index 0 only, and the match ends at index 4.
\<close>

definition prod_pattern :: RegExp where
  "prod_pattern =
     \<lparr> match_from = (\<lambda>s i. if i = 0 \<and> prefix ''prod'' s then Some 4 else None),
       stateful = False, lastIndex = 0 \<rparr>"

definition prod_pattern_g :: RegExp where
  "prod_pattern_g = prod_pattern\<lparr>stateful := True\<rparr>"

definition shop_descriptor :: RestApi where
  "shop_descriptor =
     \<lparr> id_r = JStr ''org/shop/1.0.0'', name = JStr ''Shop'', description = JUndefined,
       updatedDate = JUndefined, groupId = JStr ''org'', assetId = JStr ''shop'',
       version = JStr ''1.0.0'',
       categories = [(''Layer'', JArr [JStr ''System'']), (''Team'', JArr [JStr ''Cart''])],
       fatRaml = Some \<lparr> classifier = JStr ''fat-raml'', packaging = JUndefined,
                         externalLink = JStr ''https://a/3.zip'', createdDate = JUndefined,
                         md5 = JUndefined, sha1 = JUndefined, mainFile = JUndefined \<rparr> \<rparr>"

definition docs_descriptor :: RestApi where
  "docs_descriptor =
     \<lparr> id_r = JStr ''org/docs/0.1.0'', name = JStr ''Docs'', description = JUndefined,
       updatedDate = JUndefined, groupId = JStr ''org'', assetId = JStr ''docs'',
       version = JStr ''0.1.0'', categories = [], fatRaml = None \<rparr>"

definition draft_api :: RestApi where
  "draft_api = shop_api\<lparr>assetId := JStr ''draft''\<rparr>"

definition bare_api :: RestApi where
  "bare_api = shop_api\<lparr>assetId := JStr ''bare''\<rparr>"

definition draft_instances :: "jsval list" where
  "draft_instances =
     [JObj [(''environmentName'', JStr ''prod-1''), (''version'', JStr [])],
      JObj [(''environmentName'', JStr ''prod-2''), (''version'', JStr ''2.0.0'')]]"



definition gone_response :: Response where
  "gone_response =
     \<lparr> ok = False, status = 404, statusText = ''Not Found'',
       arrayBuffer = Inr [60, 104, 49, 62], json = Inl (External ''SyntaxError'') \<rparr>"

definition mirror_env :: env where
  "mirror_env =
     \<lparr> fetch_result = (\<lambda>input headers.
          if input = JStr ''https://cdn.example/shop.zip'' then Inr zip_response
          else if input = JStr ''https://cdn.example/gone.zip'' then Inr gone_response
          else if input = JStr ''https://cdn.example/reset.zip'' then Inl (External ''ECONNRESET'')
          else Inl (External ''ENOTFOUND'')),
       ensureDir_error = (\<lambda>dir. None),
       writeFile_error = (\<lambda>file_path. None),
       path_join = (\<lambda>a b. a @ ''/'' @ b) \<rparr>"

definition gone_api :: RestApi where
  "gone_api =
     \<lparr> id_r = JStr ''org/gone/1.0.0'', name = JStr ''Gone'', description = JUndefined,
       updatedDate = JUndefined, groupId = JStr ''org'', assetId = JStr ''gone'',
       version = JStr ''1.0.0'', categories = [],
       fatRaml = Some (shop_file\<lparr>externalLink := JStr ''https://cdn.example/gone.zip''\<rparr>) \<rparr>"

definition lost_api :: RestApi where
  "lost_api =
     \<lparr> id_r = JStr ''org/lost/1.0.0'', name = JStr ''Lost'', description = JUndefined,
       updatedDate = JUndefined, groupId = JStr ''org'', assetId = JStr ''lost'',
       version = JStr ''1.0.0'', categories = [],
       fatRaml = Some (shop_file\<lparr>externalLink := JStr ''https://cdn.example/lost.zip''\<rparr>) \<rparr>"

definition reset_api :: RestApi where
  "reset_api =
     \<lparr> id_r = JStr ''org/reset/1.0.0'', name = JStr ''Reset'', description = JUndefined,
       updatedDate = JUndefined, groupId = JStr ''org'', assetId = JStr ''reset'',
       version = JStr ''1.0.0'', categories = [],
       fatRaml = Some (shop_file\<lparr>externalLink := JStr ''https://cdn.example/reset.zip''\<rparr>) \<rparr>"

section \<open>Canonical-file selection\<close>

lemma getFileByClassifier_loop_last:
  "\<forall>f\<in>set fs. \<not> nullish f \<Longrightarrow>
   getFileByClassifier_loop fs c myFile =
     Inr (if filter (\<lambda>f. field ''classifier'' f = JStr c) fs = [] then myFile
          else Some (file_literal (last (filter (\<lambda>f. field ''classifier'' f = JStr c) fs))))"
  by (induction fs arbitrary: myFile) auto

text \<open>
  Claim C2. When more than one entry of the file list carries the requested classifier,
  \<open>getFileByClassifier\<close> returns the last of them (as the object literal built from
  it): the tie-break is last-wins. The entries are values a property can be read from
  (not \<^verbatim>\<open>null\<close>), as the entries of a registry response are.
\<close>

theorem getFileByClassifier_last_wins:
  assumes "\<forall>f\<in>set fs. \<not> nullish f"
    and "1 < length (filter (\<lambda>f. field ''classifier'' f = JStr c) fs)"
  shows "getFileByClassifier (JArr fs) c =
           Inr (Some (file_literal (last (filter (\<lambda>f. field ''classifier'' f = JStr c) fs))))"
proof -
  from assms(2) have "filter (\<lambda>f. field ''classifier'' f = JStr c) fs \<noteq> []"
    by auto
  with assms(1) show ?thesis
    by (simp add: getFileByClassifier_loop_last)
qed

text \<open>
  Of two \<^verbatim>\<open>fat-raml\<close> entries, with links \<^verbatim>\<open>1.zip\<close> and \<^verbatim>\<open>3.zip\<close>, the
  second is selected.
\<close>

theorem getFileByClassifier_last_wins_witness:
  "list_all (\<lambda>f. \<not> nullish f) two_fat_files \<and>
   1 < length (filter (\<lambda>f. field ''classifier'' f = JStr ''fat-raml'') two_fat_files) \<and>
   getFileByClassifier (JArr two_fat_files) ''fat-raml'' =
     Inr (Some \<lparr> classifier = JStr ''fat-raml'', packaging = JUndefined,
                 externalLink = JStr ''https://a/3.zip'', createdDate = JUndefined,
                 md5 = JUndefined, sha1 = JUndefined, mainFile = JUndefined \<rparr>)"
  using getFileByClassifier_last_wins [of two_fat_files "''fat-raml''"]
  by (simp add: two_fat_files_def file_literal_def)

section \<open>A single download\<close>

text \<open>
  Claim C3. For a descriptor whose registry id is missing (\<^verbatim>\<open>undefined\<close>, the empty
  string, or any other falsy value), \<open>downloadRestApi\<close> returns normally with no
  result, and the only effect is one warning: no request, no directory, no file. The hint
  of the warning contains the manual fallback URL of the asset.
\<close>

theorem downloadRestApi_missing_id_skips:
  assumes "\<not> truthy (id_r restApi)"
  shows "downloadRestApi E restApi destinationFolder w =
           (Inr None,
            w\<lparr>trace := trace w @ [Warn (missing_id_message restApi) (missing_id_hint restApi)]\<rparr>)
         \<and> sublist (ANYPOINT_BASE_URI_WITHOUT_VERSION @ ''/'' @ js_string (groupId restApi) @
                     ''/'' @ js_string (assetId restApi))
                   (missing_id_hint restApi)"
proof
  show "downloadRestApi E restApi destinationFolder w =
           (Inr None,
            w\<lparr>trace := trace w @ [Warn (missing_id_message restApi) (missing_id_hint restApi)]\<rparr>)"
    using assms
    by (simp add: downloadRestApi_def downloadRestApi_start_def downloadRestApi_finish_def emit_def)
  show "sublist (ANYPOINT_BASE_URI_WITHOUT_VERSION @ ''/'' @ js_string (groupId restApi) @
                     ''/'' @ js_string (assetId restApi))
                   (missing_id_hint restApi)"
    unfolding missing_id_hint_def manual_download_url_def
    by (rule sublist_appendI)
qed

theorem downloadRestApi_missing_id_skips_witness:
  "\<not> truthy (id_r legacy_api) \<and>
   downloadRestApi disk_env legacy_api None stale_world =
     (Inr None,
      stale_world\<lparr>trace :=
        [Warn (''Failed to download '' @ [CHR 0x27] @ ''Legacy'' @ [CHR 0x27] @
               '' RAML as Fat RAML download information is missing.'')
              (''Please download it manually from https://anypoint.mulesoft.com/exchange/org/legacy'' @
               '' and update the relevant details in apis/api-config.json'')]\<rparr>)"
proof -
  have missing: "\<not> truthy (id_r legacy_api)"
    by (simp add: legacy_api_def)
  from downloadRestApi_missing_id_skips [OF missing, of disk_env None stale_world]
  show ?thesis
    using missing
    by (simp add: legacy_api_def stale_world_def missing_id_message_def missing_id_hint_def
          manual_download_url_def ANYPOINT_BASE_URI_WITHOUT_VERSION_def)
qed

lemma downloadRestApi_success_iff:
  assumes "truthy (id_r restApi)"
  shows "downloadRestApi E restApi destinationFolder w = (Inr r, w') \<longleftrightarrow>
           (\<exists>f response buf.
              fatRaml restApi = Some f \<and>
              ensureDir_error E (folder_or_default destinationFolder) = None \<and>
              fetch_result E (externalLink f) [] = Inr response \<and>
              arrayBuffer response = Inr buf \<and>
              writeFile_error E (path_join E (folder_or_default destinationFolder)
                                   (js_string (assetId restApi) @ ''.zip'')) = None \<and>
              r = Some response \<and>
              w' = \<lparr> trace = trace w @
                       [EnsureDir (folder_or_default destinationFolder),
                        Fetch (externalLink f) [],
                        WriteFile (path_join E (folder_or_default destinationFolder)
                                     (js_string (assetId restApi) @ ''.zip'')) buf],
                     dirs = insert (folder_or_default destinationFolder) (dirs w),
                     files = (files w)(path_join E (folder_or_default destinationFolder)
                                         (js_string (assetId restApi) @ ''.zip'') \<mapsto> buf) \<rparr>)"
  using assms
  by (auto simp: downloadRestApi_def downloadRestApi_start_def downloadRestApi_finish_def
                 ensureDirSync_def writeFileSync_def emit_def Let_def
           split: option.splits sum.splits)

lemma folder_or_default_cases:
  "folder_or_default destinationFolder =
     (case destinationFolder of None \<Rightarrow> ''download'' | Some d \<Rightarrow> d)"
  by (simp add: folder_or_default_def DEFAULT_DOWNLOAD_FOLDER_def split: option.splits)

text \<open>
  Claim C4. Let the destination be the folder the caller passes, or \<^verbatim>\<open>download\<close> when
  none is passed. For a descriptor with a registry id, a call of \<open>downloadRestApi\<close> that
  succeeds has ensured the destination directory, handed the external link of the
  descriptor's archive entry to \<^verbatim>\<open>fetch\<close>, and written the whole body of the response
  to the path \<^verbatim>\<open>path.join(destination, `${assetId}.zip`)\<close>, whatever was there before:
  the file holds exactly the bytes of the body, so its length is the length of the body.
  Nothing else happened: no other file and no other directory changed.
\<close>

theorem downloadRestApi_writes_zip:
  assumes "truthy (id_r restApi)"
    and "dest = (case destinationFolder of None \<Rightarrow> ''download'' | Some d \<Rightarrow> d)"
    and "fst (downloadRestApi E restApi destinationFolder w) = Inr r"
  shows "\<exists>f response buf.
           fatRaml restApi = Some f \<and>
           fetch_result E (externalLink f) [] = Inr response \<and>
           arrayBuffer response = Inr buf \<and>
           r = Some response \<and>
           dirs (snd (downloadRestApi E restApi destinationFolder w)) = insert dest (dirs w) \<and>
           files (snd (downloadRestApi E restApi destinationFolder w)) =
             (files w)(path_join E dest (js_string (assetId restApi) @ ''.zip'') \<mapsto> buf) \<and>
           length (the (files (snd (downloadRestApi E restApi destinationFolder w))
                     (path_join E dest (js_string (assetId restApi) @ ''.zip'')))) = length buf \<and>
           trace (snd (downloadRestApi E restApi destinationFolder w)) =
             trace w @
               [EnsureDir dest,
                Fetch (externalLink f) [],
                WriteFile (path_join E dest (js_string (assetId restApi) @ ''.zip'')) buf]"
proof -
  have dest: "folder_or_default destinationFolder = dest"
    using assms(2) by (simp add: folder_or_default_cases)
  obtain w' where run: "downloadRestApi E restApi destinationFolder w = (Inr r, w')"
    using assms(3) by (cases "downloadRestApi E restApi destinationFolder w") simp
  from run downloadRestApi_success_iff [OF assms(1), of E destinationFolder w r w']
  show ?thesis
    unfolding dest by auto
qed

text \<open>
  A download into the default folder, over a stale two-byte file: the call succeeds and
  the file holds the four bytes of the response. The same download into the folder
  \<^verbatim>\<open>out\<close>: the file is \<^verbatim>\<open>out/shop.zip\<close>, and the stale file stays as it was.
\<close>

lemma download_shop_default:
  "fst (downloadRestApi disk_env shop_api None stale_world) = Inr (Some zip_response)"
  by (simp add: downloadRestApi_def downloadRestApi_start_def downloadRestApi_finish_def
        ensureDirSync_def writeFileSync_def emit_def folder_or_default_def
        DEFAULT_DOWNLOAD_FOLDER_def shop_api_def shop_file_def disk_env_def zip_response_def)

lemma download_shop_out:
  "fst (downloadRestApi disk_env shop_api (Some ''out'') stale_world) = Inr (Some zip_response)"
  by (simp add: downloadRestApi_def downloadRestApi_start_def downloadRestApi_finish_def
        ensureDirSync_def writeFileSync_def emit_def folder_or_default_def
        shop_api_def shop_file_def disk_env_def zip_response_def)

theorem downloadRestApi_writes_zip_witness:
  "truthy (id_r shop_api) \<and>
   files stale_world ''download/shop.zip'' = Some [0, 0] \<and>
   fst (downloadRestApi disk_env shop_api None stale_world) = Inr (Some zip_response) \<and>
   files (snd (downloadRestApi disk_env shop_api None stale_world)) ''download/shop.zip''
     = Some [80, 75, 3, 4] \<and>
   files (snd (downloadRestApi disk_env shop_api None stale_world)) ''out/shop.zip'' = None \<and>
   dirs (snd (downloadRestApi disk_env shop_api None stale_world)) = {''download''} \<and>
   fst (downloadRestApi disk_env shop_api (Some ''out'') stale_world) = Inr (Some zip_response) \<and>
   files (snd (downloadRestApi disk_env shop_api (Some ''out'') stale_world)) ''out/shop.zip''
     = Some [80, 75, 3, 4] \<and>
   files (snd (downloadRestApi disk_env shop_api (Some ''out'') stale_world)) ''download/shop.zip''
     = Some [0, 0] \<and>
   dirs (snd (downloadRestApi disk_env shop_api (Some ''out'') stale_world)) = {''out''} \<and>
   trace (snd (downloadRestApi disk_env shop_api (Some ''out'') stale_world)) =
     [EnsureDir ''out'', Fetch (JStr ''https://cdn.example/shop.zip'') [],
      WriteFile ''out/shop.zip'' [80, 75, 3, 4]]"
proof -
  have id_ok: "truthy (id_r shop_api)"
    by (simp add: shop_api_def)
  have d1: "''download'' = (case None :: string option of None \<Rightarrow> ''download'' | Some d \<Rightarrow> d)"
    and d2: "''out'' = (case Some ''out'' of None \<Rightarrow> ''download'' | Some d \<Rightarrow> d)"
    by simp_all
  from downloadRestApi_writes_zip [OF id_ok d1 download_shop_default]
  have a: "files (snd (downloadRestApi disk_env shop_api None stale_world)) ''download/shop.zip''
             = Some [80, 75, 3, 4] \<and>
           files (snd (downloadRestApi disk_env shop_api None stale_world)) ''out/shop.zip'' = None \<and>
           dirs (snd (downloadRestApi disk_env shop_api None stale_world)) = {''download''}"
    by (auto simp: shop_api_def shop_file_def disk_env_def zip_response_def stale_world_def)
  from downloadRestApi_writes_zip [OF id_ok d2 download_shop_out]
  have b: "files (snd (downloadRestApi disk_env shop_api (Some ''out'') stale_world)) ''out/shop.zip''
             = Some [80, 75, 3, 4] \<and>
           files (snd (downloadRestApi disk_env shop_api (Some ''out'') stale_world))
             ''download/shop.zip'' = Some [0, 0] \<and>
           dirs (snd (downloadRestApi disk_env shop_api (Some ''out'') stale_world)) = {''out''} \<and>
           trace (snd (downloadRestApi disk_env shop_api (Some ''out'') stale_world)) =
             [EnsureDir ''out'', Fetch (JStr ''https://cdn.example/shop.zip'') [],
              WriteFile ''out/shop.zip'' [80, 75, 3, 4]]"
    by (auto simp: shop_api_def shop_file_def disk_env_def zip_response_def stale_world_def)
  have "files stale_world ''download/shop.zip'' = Some [0, 0]"
    by (simp add: stale_world_def)
  with id_ok a b download_shop_default download_shop_out show ?thesis
    by simp
qed

section \<open>Asset metadata\<close>

lemma getAsset_not_ok:
  "fetch_result E (JStr (asset_url p)) (bearer t) = Inr res \<Longrightarrow> \<not> ok res \<Longrightarrow>
   getAsset E t p w =
     (Inr JUndefined,
      w\<lparr>trace := trace w @ [Fetch (JStr (asset_url p)) (bearer t),
                              Warn (getAsset_message p res) (getAsset_hint p)]\<rparr>)"
  by (simp add: getAsset_def emit_def Let_def)

lemma getAsset_ok:
  "fetch_result E (JStr (asset_url p)) (bearer t) = Inr res \<Longrightarrow> ok res \<Longrightarrow>
   getAsset E t p w = (json res, w\<lparr>trace := trace w @ [Fetch (JStr (asset_url p)) (bearer t)]\<rparr>)"
  by (simp add: getAsset_def emit_def Let_def split: sum.splits)

text \<open>
  Claim C7. When the registry answers \<open>getAsset\<close> with a non-success status, the
  call returns \<^verbatim>\<open>undefined\<close> without throwing, after one warning whose hint
  contains the manual-lookup URL of the asset. When it answers with a success status, the
  call returns what parsing the body as JSON gives, unchanged. Either way the request is
  the only other effect.
\<close>

theorem getAsset_by_status:
  assumes "fetch_result E (JStr (asset_url assetId_p)) (bearer accessToken) = Inr res"
  shows "(\<not> ok res \<longrightarrow>
            getAsset E accessToken assetId_p w =
              (Inr JUndefined,
               w\<lparr>trace := trace w @
                   [Fetch (JStr (asset_url assetId_p)) (bearer accessToken),
                    Warn (getAsset_message assetId_p res) (getAsset_hint assetId_p)]\<rparr>) \<and>
            sublist (ANYPOINT_BASE_URI @ ''/assets/'' @ assetId_p) (getAsset_hint assetId_p)) \<and>
         (ok res \<longrightarrow>
            getAsset E accessToken assetId_p w =
              (json res,
               w\<lparr>trace := trace w @ [Fetch (JStr (asset_url assetId_p)) (bearer accessToken)]\<rparr>))"
proof (intro conjI impI)
  assume "\<not> ok res"
  with assms show "getAsset E accessToken assetId_p w =
              (Inr JUndefined,
               w\<lparr>trace := trace w @
                   [Fetch (JStr (asset_url assetId_p)) (bearer accessToken),
                    Warn (getAsset_message assetId_p res) (getAsset_hint assetId_p)]\<rparr>)"
    by (rule getAsset_not_ok)
next
  show "sublist (ANYPOINT_BASE_URI @ ''/assets/'' @ assetId_p) (getAsset_hint assetId_p)"
    unfolding getAsset_hint_def asset_url_def by (rule sublist_appendI)
next
  assume "ok res"
  with assms show "getAsset E accessToken assetId_p w =
              (json res,
               w\<lparr>trace := trace w @ [Fetch (JStr (asset_url assetId_p)) (bearer accessToken)]\<rparr>)"
    by (rule getAsset_ok)
qed

text \<open>
  An unknown asset: status 404 and the warning, letter for letter. A known one: the body
  of the response.
\<close>

lemma registry_missing:
  "fetch_result registry_env (JStr (asset_url ''org/none'')) (bearer ''secret'') = Inr not_found"
  by (simp add: registry_env_def asset_url_def ANYPOINT_BASE_URI_def)

lemma registry_shop:
  "fetch_result registry_env (JStr (asset_url ''org/shop'')) (bearer ''secret'') = Inr (ok_json shop_json)"
  by (simp add: registry_env_def asset_url_def ANYPOINT_BASE_URI_def)

theorem getAsset_by_status_witness:
  "getAsset registry_env ''secret'' ''org/none'' empty_world =
     (Inr JUndefined,
      empty_world\<lparr>trace :=
        [Fetch (JStr ''https://anypoint.mulesoft.com/exchange/api/v2/assets/org/none'')
               [(''Authorization'', ''Bearer secret'')],
         Warn ''Failed to get information about org/none from exchange: 404 - Not Found''
              (''Please get it manually from https://anypoint.mulesoft.com/exchange/api/v2/assets/org/none'' @
               '' and update the relevant details in apis/api-config.json'')]\<rparr>) \<and>
   fst (getAsset registry_env ''secret'' ''org/shop'' empty_world) = Inr shop_json"
proof -
  have a: "getAsset registry_env ''secret'' ''org/none'' empty_world =
     (Inr JUndefined,
      empty_world\<lparr>trace :=
        [Fetch (JStr ''https://anypoint.mulesoft.com/exchange/api/v2/assets/org/none'')
               [(''Authorization'', ''Bearer secret'')],
         Warn ''Failed to get information about org/none from exchange: 404 - Not Found''
              (''Please get it manually from https://anypoint.mulesoft.com/exchange/api/v2/assets/org/none'' @
               '' and update the relevant details in apis/api-config.json'')]\<rparr>)"
    using getAsset_by_status [OF registry_missing, of empty_world]
    by (simp add: not_found_def empty_world_def asset_url_def bearer_def getAsset_message_def
          getAsset_hint_def ANYPOINT_BASE_URI_def show_nat.simps)
  have b: "fst (getAsset registry_env ''secret'' ''org/shop'' empty_world) = Inr shop_json"
    using getAsset_by_status [OF registry_shop, of empty_world]
    by (simp add: ok_json_def)
  from a b show ?thesis by simp
qed

section \<open>A specific version of an asset\<close>

lemma getAsset_trace:
  "\<exists>evs. trace (snd (getAsset E t p w)) = trace w @ Fetch (JStr (asset_url p)) (bearer t) # evs \<and>
         (evs = [] \<or> (\<exists>m h. evs = [Warn m h]))"
  by (auto simp: getAsset_def emit_def Let_def split: sum.splits)

text \<open>
  Claim C8. With a falsy version (the empty string, or the argument left out),
  \<open>getSpecificApi\<close> returns \<^verbatim>\<open>null\<close> and the world is untouched: no request.
  With a version, it is one call of \<open>getAsset\<close> for the path
  \<^verbatim>\<open>groupId/assetId/version\<close> (so one request to that URL of the registry, with the
  bearer token, and at most the warning of \<open>getAsset\<close> after it); a truthy answer
  is mapped by \<open>convertResponseToRestApi\<close>, a falsy one gives \<^verbatim>\<open>null\<close>, and an
  error of either step is the error of the call.
\<close>

theorem getSpecificApi_by_version:
  "(\<not> truthy version_p \<longrightarrow>
      getSpecificApi E accessToken groupId_p assetId_p version_p w = (Inr None, w)) \<and>
   (truthy version_p \<longrightarrow>
      snd (getSpecificApi E accessToken groupId_p assetId_p version_p w) =
        snd (getAsset E accessToken
               (groupId_p @ ''/'' @ assetId_p @ ''/'' @ js_string version_p) w) \<and>
      fst (getSpecificApi E accessToken groupId_p assetId_p version_p w) =
        (case fst (getAsset E accessToken
                     (groupId_p @ ''/'' @ assetId_p @ ''/'' @ js_string version_p) w) of
           Inl e \<Rightarrow> Inl e
         | Inr api \<Rightarrow>
             if truthy api then map_sum (\<lambda>e. e) Some (convertResponseToRestApi api)
             else Inr None) \<and>
      (\<exists>evs. trace (snd (getSpecificApi E accessToken groupId_p assetId_p version_p w)) =
               trace w @
               Fetch (JStr (ANYPOINT_BASE_URI @ ''/assets/'' @ groupId_p @ ''/'' @ assetId_p @
                            ''/'' @ js_string version_p))
                     [(''Authorization'', ''Bearer '' @ accessToken)] # evs \<and>
             (evs = [] \<or> (\<exists>m h. evs = [Warn m h]))))"
proof (intro conjI impI)
  assume "\<not> truthy version_p"
  then show "getSpecificApi E accessToken groupId_p assetId_p version_p w = (Inr None, w)"
    by (simp add: getSpecificApi_def)
next
  assume v: "truthy version_p"
  then show "snd (getSpecificApi E accessToken groupId_p assetId_p version_p w) =
        snd (getAsset E accessToken
               (groupId_p @ ''/'' @ assetId_p @ ''/'' @ js_string version_p) w)"
    by (simp add: getSpecificApi_def split: prod.splits sum.splits)
  then show "\<exists>evs. trace (snd (getSpecificApi E accessToken groupId_p assetId_p version_p w)) =
               trace w @
               Fetch (JStr (ANYPOINT_BASE_URI @ ''/assets/'' @ groupId_p @ ''/'' @ assetId_p @
                            ''/'' @ js_string version_p))
                     [(''Authorization'', ''Bearer '' @ accessToken)] # evs \<and>
             (evs = [] \<or> (\<exists>m h. evs = [Warn m h]))"
    using getAsset_trace [of E accessToken
        "groupId_p @ ''/'' @ assetId_p @ ''/'' @ js_string version_p" w]
    by (simp add: asset_url_def bearer_def)
  from v show "fst (getSpecificApi E accessToken groupId_p assetId_p version_p w) =
        (case fst (getAsset E accessToken
                     (groupId_p @ ''/'' @ assetId_p @ ''/'' @ js_string version_p) w) of
           Inl e \<Rightarrow> Inl e
         | Inr api \<Rightarrow>
             if truthy api then map_sum (\<lambda>e. e) Some (convertResponseToRestApi api)
             else Inr None)"
    by (simp add: getSpecificApi_def split: prod.splits sum.splits)
qed

text \<open>
  The registry of the examples: no version, a version it knows, a version it does not.
\<close>

lemma convert_docs: "convertResponseToRestApi docs_json = Inr docs_descriptor"
  by (simp add: convertResponseToRestApi_def docs_json_def docs_descriptor_def)

lemma convert_shop: "convertResponseToRestApi shop_json = Inr shop_descriptor"
  by (simp add: convertResponseToRestApi_def shop_json_def two_fat_files_def file_literal_def
        shop_descriptor_def)

lemma getAsset_shop_version:
  "getAsset registry_env ''secret'' ''org/shop/1.0.0'' empty_world =
     (Inr shop_json,
      empty_world\<lparr>trace :=
        [Fetch (JStr ''https://anypoint.mulesoft.com/exchange/api/v2/assets/org/shop/1.0.0'')
               [(''Authorization'', ''Bearer secret'')]]\<rparr>)"
  by (simp add: getAsset_def registry_env_def asset_url_def ANYPOINT_BASE_URI_def bearer_def
        emit_def ok_json_def empty_world_def)

lemma getAsset_unknown_version:
  "fst (getAsset registry_env ''secret'' ''org/shop/9.9.9'' empty_world) = Inr JUndefined"
  by (simp add: getAsset_def registry_env_def asset_url_def ANYPOINT_BASE_URI_def bearer_def
        emit_def not_found_def empty_world_def)

theorem getSpecificApi_by_version_witness:
  "getSpecificApi registry_env ''secret'' ''org'' ''shop'' (JStr []) empty_world =
     (Inr None, empty_world) \<and>
   getSpecificApi registry_env ''secret'' ''org'' ''shop'' JUndefined empty_world =
     (Inr None, empty_world) \<and>
   fst (getSpecificApi registry_env ''secret'' ''org'' ''shop'' (JStr ''1.0.0'') empty_world) =
     Inr (Some shop_descriptor) \<and>
   fst (getSpecificApi registry_env ''secret'' ''org'' ''shop'' (JStr ''9.9.9'') empty_world) =
     Inr None"
  using getSpecificApi_by_version [of "JStr []" registry_env "''secret''" "''org''" "''shop''" empty_world]
    getSpecificApi_by_version [of JUndefined registry_env "''secret''" "''org''" "''shop''" empty_world]
    getSpecificApi_by_version [of "JStr ''1.0.0''" registry_env "''secret''" "''org''" "''shop''" empty_world]
    getSpecificApi_by_version [of "JStr ''9.9.9''" registry_env "''secret''" "''org''" "''shop''" empty_world]
    getAsset_shop_version getAsset_unknown_version convert_shop
  by (simp add: shop_json_def)

section \<open>Descriptors without an archive entry\<close>

lemma convert_fatRaml:
  assumes "convertResponseToRestApi apiResponse = Inr r"
  shows "\<exists>fs. field ''files'' apiResponse = JArr fs \<and>
              getFileByClassifier_loop fs ''fat-raml'' None = Inr (fatRaml r)"
proof -
  from assms obtain sel where
    f: "getFileByClassifier (field ''files'' apiResponse) ''fat-raml'' = Inr sel"
    and r: "fatRaml r = sel"
    by (auto simp: convertResponseToRestApi_def split: if_splits sum.splits)
  from f obtain fs where "field ''files'' apiResponse = JArr fs"
    by (cases "field ''files'' apiResponse") simp_all
  with f r show ?thesis by simp
qed

lemma getFileByClassifier_loop_Some:
  "getFileByClassifier_loop fs c (Some x) \<noteq> Inr None"
  by (induction fs arbitrary: x) auto

lemma getFileByClassifier_loop_ok:
  "getFileByClassifier_loop fs c myFile = Inr sel \<Longrightarrow> list_all (\<lambda>f. \<not> nullish f) fs"
  by (induction fs arbitrary: myFile) (auto split: if_splits)

lemma getFileByClassifier_loop_none:
  assumes "getFileByClassifier_loop fs c None = Inr sel"
  shows "sel = None \<longleftrightarrow> list_all (\<lambda>f. field ''classifier'' f \<noteq> JStr c) fs"
proof -
  from assms have ok: "\<forall>f\<in>set fs. \<not> nullish f"
    using getFileByClassifier_loop_ok [of fs c None sel] by (simp add: list_all_iff)
  from getFileByClassifier_loop_last [OF ok, of c None] assms
  show ?thesis
    by (auto simp: list_all_iff filter_empty_conv)
qed

text \<open>
  Claim C9. \<open>downloadRestApi\<close> reads \<^verbatim>\<open>restApi.fatRaml.externalLink\<close> with no
  guard. For a descriptor that has a registry id and no \<open>fatRaml\<close> entry the call
  therefore ends in a \<open>TypeError\<close>, after the directory was ensured and with no
  request, no warning and no file (unless ensuring the directory failed first); with an
  entry, the request for its link is issued. And \<open>convertResponseToRestApi\<close>, through
  which \<open>searchExchange\<close> and \<open>getSpecificApi\<close> build their descriptors, leaves
  \<open>fatRaml\<close> absent exactly when no file of the asset is classified
  \<^verbatim>\<open>fat-raml\<close>.
\<close>

theorem downloadRestApi_faults_without_fatRaml:
  "(truthy (id_r restApi) \<and> fatRaml restApi = None \<longrightarrow>
      downloadRestApi E restApi destinationFolder w =
        (case ensureDir_error E (folder_or_default destinationFolder) of
           Some e \<Rightarrow> (Inl e, w)
         | None \<Rightarrow>
             (Inl TypeError,
              w\<lparr>trace := trace w @ [EnsureDir (folder_or_default destinationFolder)],
                dirs := insert (folder_or_default destinationFolder) (dirs w)\<rparr>))) \<and>
   (truthy (id_r restApi) \<and> fatRaml restApi = Some f \<and>
    ensureDir_error E (folder_or_default destinationFolder) = None \<longrightarrow>
      Fetch (externalLink f) []
        \<in> set (trace (snd (downloadRestApi E restApi destinationFolder w)))) \<and>
   (convertResponseToRestApi apiResponse = Inr r \<longrightarrow>
      (\<exists>fs. field ''files'' apiResponse = JArr fs \<and>
            (fatRaml r = None \<longleftrightarrow>
               list_all (\<lambda>entry. field ''classifier'' entry \<noteq> JStr ''fat-raml'') fs)))"
proof (intro conjI impI)
  assume "truthy (id_r restApi) \<and> fatRaml restApi = None"
  then show "downloadRestApi E restApi destinationFolder w =
        (case ensureDir_error E (folder_or_default destinationFolder) of
           Some e \<Rightarrow> (Inl e, w)
         | None \<Rightarrow>
             (Inl TypeError,
              w\<lparr>trace := trace w @ [EnsureDir (folder_or_default destinationFolder)],
                dirs := insert (folder_or_default destinationFolder) (dirs w)\<rparr>))"
    by (simp add: downloadRestApi_def downloadRestApi_start_def downloadRestApi_finish_def
          ensureDirSync_def emit_def split: option.splits)
next
  assume "truthy (id_r restApi) \<and> fatRaml restApi = Some f \<and>
    ensureDir_error E (folder_or_default destinationFolder) = None"
  then show "Fetch (externalLink f) []
        \<in> set (trace (snd (downloadRestApi E restApi destinationFolder w)))"
    by (simp add: downloadRestApi_def downloadRestApi_start_def downloadRestApi_finish_def
          ensureDirSync_def writeFileSync_def emit_def Let_def split: option.splits sum.splits)
next
  assume conv: "convertResponseToRestApi apiResponse = Inr r"
  from convert_fatRaml [OF conv] obtain fs where
    fs: "field ''files'' apiResponse = JArr fs"
    and loop: "getFileByClassifier_loop fs ''fat-raml'' None = Inr (fatRaml r)"
    by blast
  from getFileByClassifier_loop_none [OF loop] fs
  show "\<exists>fs. field ''files'' apiResponse = JArr fs \<and>
            (fatRaml r = None \<longleftrightarrow>
               list_all (\<lambda>entry. field ''classifier'' entry \<noteq> JStr ''fat-raml'') fs)"
    by simp
qed

text \<open>
  The descriptor of an asset whose only file is an OAS document: its download faults. The
  descriptor with an archive entry: the request is issued.
\<close>

theorem downloadRestApi_faults_without_fatRaml_witness:
  "convertResponseToRestApi docs_json = Inr docs_descriptor \<and>
   truthy (id_r docs_descriptor) \<and> fatRaml docs_descriptor = None \<and>
   downloadRestApi disk_env docs_descriptor None empty_world =
     (Inl TypeError, \<lparr> trace = [EnsureDir ''download''], dirs = {''download''}, files = Map.empty \<rparr>) \<and>
   Fetch (JStr ''https://cdn.example/shop.zip'') []
     \<in> set (trace (snd (downloadRestApi disk_env shop_api None empty_world)))"
  using downloadRestApi_faults_without_fatRaml
          [where restApi = docs_descriptor and E = disk_env and destinationFolder = None
             and w = empty_world and f = shop_file and apiResponse = docs_json
             and r = docs_descriptor]
        downloadRestApi_faults_without_fatRaml
          [where restApi = shop_api and E = disk_env and destinationFolder = None
             and w = empty_world and f = shop_file and apiResponse = docs_json
             and r = docs_descriptor]
        convert_docs
  by (simp add: docs_descriptor_def shop_api_def shop_file_def disk_env_def empty_world_def
        folder_or_default_def DEFAULT_DOWNLOAD_FOLDER_def)

section \<open>The version deployed to an environment\<close>

lemma test_stateless: "\<not> stateful re \<Longrightarrow> test re s = (match_from re s 0 \<noteq> None, re)"
  by (simp add: test_def split: option.splits)

lemma tested_true_stateless:
  "\<not> stateful re \<Longrightarrow> tested_true re insts = filter (selects re) insts"
  by (induction insts) (simp_all add: test_stateless selects_def)

lemma find_filter: "find P (filter Q xs) = find (\<lambda>x. Q x \<and> P x) xs"
  by (induction xs) simp_all

lemma instances_loop_result:
  assumes "\<forall>i\<in>set insts. \<not> nullish i"
  shows "\<exists>r. fst (instances_loop re insts v) = Inr r \<and>
             (if truthy v then r = v
              else case find (\<lambda>i. truthy (field ''version'' i)) (tested_true re insts) of
                     Some i \<Rightarrow> r = field ''version'' i
                   | None \<Rightarrow> \<not> truthy r)"
  using assms
proof (induction insts arbitrary: re v)
  case Nil
  then show ?case by simp
next
  case (Cons i rest)
  then have i: "\<not> nullish i" and rest: "\<forall>i\<in>set rest. \<not> nullish i"
    by simp_all
  show ?case
  proof (cases "truthy (field ''environmentName'' i)")
    case False
    with Cons.IH [OF rest, of re v] i show ?thesis
      by auto
  next
    case True
    obtain m re' where t: "test re (js_string (field ''environmentName'' i)) = (m, re')"
      by (cases "test re (js_string (field ''environmentName'' i))")
    show ?thesis
    proof (cases "m \<and> \<not> truthy v")
      case True
      with Cons.IH [OF rest, of re' "field ''version'' i"] i t \<open>truthy (field ''environmentName'' i)\<close>
      show ?thesis
        by auto
    next
      case False
      with Cons.IH [OF rest, of re' v] i t \<open>truthy (field ''environmentName'' i)\<close>
      show ?thesis
        by auto
    qed
  qed
qed

lemma instances_loop_state:
  "\<forall>i\<in>set insts. \<not> nullish i \<Longrightarrow>
   snd (instances_loop re insts v) = snd (instances_loop re insts v')"
proof (induction insts arbitrary: re v v')
  case Nil
  then show ?case by simp
next
  case (Cons i rest)
  then have rest: "\<forall>i\<in>set rest. \<not> nullish i"
    by simp
  from Cons.prems Cons.IH [OF rest] show ?case
    by (auto split: prod.splits)
qed

lemma instances_loop_stateless:
  "\<not> stateful re \<Longrightarrow> snd (instances_loop re insts v) = re"
  by (induction insts arbitrary: v) (simp_all add: test_stateless)

lemma getVersionByDeployment_found:
  assumes "getAsset E t (js_string (groupId restApi) @ ''/'' @ js_string (assetId restApi)) w
             = (Inr asset, w1)"
    and "truthy asset" and "field ''instances'' asset = JArr insts"
    and "\<forall>i\<in>set insts. \<not> nullish i"
  shows "getVersionByDeployment E t restApi re w =
           (Inr (case find (\<lambda>i. truthy (field ''version'' i)) (tested_true re insts) of
                   Some i \<Rightarrow> field ''version'' i
                 | None \<Rightarrow> field ''version'' asset),
            w1, snd (instances_loop re insts JNull))"
proof -
  from instances_loop_result [OF assms(4), of re JNull]
  obtain r where r: "fst (instances_loop re insts JNull) = Inr r"
    and c: "case find (\<lambda>i. truthy (field ''version'' i)) (tested_true re insts) of
              Some i \<Rightarrow> r = field ''version'' i
            | None \<Rightarrow> \<not> truthy r"
    by auto
  from r obtain st where loop: "instances_loop re insts JNull = (Inr r, st)"
    by (cases "instances_loop re insts JNull") simp
  show ?thesis
  proof (cases "find (\<lambda>i. truthy (field ''version'' i)) (tested_true re insts)")
    case None
    with c loop assms(1-3) show ?thesis
      by (simp add: getVersionByDeployment_def)
  next
    case (Some i)
    then have "truthy (field ''version'' i)"
      by (auto simp: find_Some_iff)
    with Some c loop assms(1-3) show ?thesis
      by (simp add: getVersionByDeployment_def)
  qed
qed




lemma getAsset_draft:
  "getAsset registry_env ''secret''
     (js_string (groupId draft_api) @ ''/'' @ js_string (assetId draft_api)) empty_world =
     (Inr draft_json,
      empty_world\<lparr>trace :=
        [Fetch (JStr ''https://anypoint.mulesoft.com/exchange/api/v2/assets/org/draft'')
               [(''Authorization'', ''Bearer secret'')]]\<rparr>)"
  by (simp add: getAsset_def registry_env_def asset_url_def ANYPOINT_BASE_URI_def bearer_def
        emit_def ok_json_def empty_world_def draft_api_def shop_api_def)









lemma find_drop_unselected:
  "\<not> P i \<Longrightarrow> find P (pre @ i # post) = find P (pre @ post)"
  by (induction pre) auto

lemma fallback_same:
  assumes "case found of Some i \<Rightarrow> a = field ''version'' i | None \<Rightarrow> \<not> truthy a"
    and "case found of Some i \<Rightarrow> b = field ''version'' i | None \<Rightarrow> \<not> truthy b"
  shows "(if truthy a then a else fallback) = (if truthy b then b else fallback)"
  using assms by (cases found) auto

text \<open>
  Claim C10, as amended. \<open>getVersionByDeployment\<close> never returns a falsy version taken
  from an instance: for an asset that was found, the result is truthy or it is the asset's
  own top-level version field, whatever that holds. And an instance on which \<^verbatim>\<open>test\<close>
  answers true but whose version is falsy supplies nothing: the scan goes on behind it as
  if no version had been seen, on the pattern object as that call of \<^verbatim>\<open>test\<close> left it,
  so a later instance supplies the version. For a pattern without the global or sticky
  flag, the scan followed by the fallback gives the same with that instance and without
  it. So the first-match rule does not hold when the first match has an empty version.
\<close>

theorem getVersionByDeployment_falsy_only_from_asset:
  "(getAsset E accessToken
      (js_string (groupId restApi) @ ''/'' @ js_string (assetId restApi)) w = (Inr asset, w1) \<and>
    truthy asset \<and> field ''instances'' asset = JArr insts \<and> (\<forall>i\<in>set insts. \<not> nullish i) \<longrightarrow>
      (\<exists>r. fst (getVersionByDeployment E accessToken restApi deployment w) = Inr r \<and>
           fst (snd (getVersionByDeployment E accessToken restApi deployment w)) = w1 \<and>
           (truthy r \<or> r = field ''version'' asset))) \<and>
   (\<not> nullish inst \<and> (\<forall>x\<in>set post. \<not> nullish x) \<and>
    truthy (field ''environmentName'' inst) \<and>
    test deployment (js_string (field ''environmentName'' inst)) = (True, deployment') \<and>
    \<not> truthy (field ''version'' inst) \<longrightarrow>
      (\<exists>a b st. instances_loop deployment (inst # post) JNull = (Inr a, st) \<and>
                instances_loop deployment' post JNull = (Inr b, st) \<and>
                (if truthy a then a else fallback) = (if truthy b then b else fallback))) \<and>
   (\<not> stateful deployment \<and> (\<forall>x\<in>set (pre @ inst # post). \<not> nullish x) \<and>
    selects deployment inst \<and> \<not> truthy (field ''version'' inst) \<longrightarrow>
      (\<exists>a b. instances_loop deployment (pre @ inst # post) JNull = (Inr a, deployment) \<and>
             instances_loop deployment (pre @ post) JNull = (Inr b, deployment) \<and>
             (if truthy a then a else fallback) = (if truthy b then b else fallback)))"
proof (intro conjI impI)
  assume h: "getAsset E accessToken
      (js_string (groupId restApi) @ ''/'' @ js_string (assetId restApi)) w = (Inr asset, w1) \<and>
    truthy asset \<and> field ''instances'' asset = JArr insts \<and> (\<forall>i\<in>set insts. \<not> nullish i)"
  let ?found = "find (\<lambda>i. truthy (field ''version'' i)) (tested_true deployment insts)"
  from h have run: "getVersionByDeployment E accessToken restApi deployment w =
           (Inr (case ?found of Some i \<Rightarrow> field ''version'' i | None \<Rightarrow> field ''version'' asset),
            w1, snd (instances_loop deployment insts JNull))"
    by (simp add: getVersionByDeployment_found)
  show "\<exists>r. fst (getVersionByDeployment E accessToken restApi deployment w) = Inr r \<and>
           fst (snd (getVersionByDeployment E accessToken restApi deployment w)) = w1 \<and>
           (truthy r \<or> r = field ''version'' asset)"
  proof (cases ?found)
    case None
    with run show ?thesis by simp
  next
    case (Some i)
    then have "truthy (field ''version'' i)"
      by (auto simp: find_Some_iff)
    with Some run show ?thesis by simp
  qed
next
  let ?P = "\<lambda>i. truthy (field ''version'' i)"
  assume h: "\<not> nullish inst \<and> (\<forall>x\<in>set post. \<not> nullish x) \<and>
    truthy (field ''environmentName'' inst) \<and>
    test deployment (js_string (field ''environmentName'' inst)) = (True, deployment') \<and>
    \<not> truthy (field ''version'' inst)"
  then have post: "\<forall>x\<in>set post. \<not> nullish x"
    by simp
  from h have step: "instances_loop deployment (inst # post) JNull =
                       instances_loop deployment' post (field ''version'' inst)"
    by simp
  from instances_loop_result [OF post, of deployment' "field ''version'' inst"] h
  obtain a where a: "fst (instances_loop deployment' post (field ''version'' inst)) = Inr a"
    and ca: "case find ?P (tested_true deployment' post) of
               Some i \<Rightarrow> a = field ''version'' i | None \<Rightarrow> \<not> truthy a"
    by auto
  from instances_loop_result [OF post, of deployment' JNull]
  obtain b where b: "fst (instances_loop deployment' post JNull) = Inr b"
    and cb: "case find ?P (tested_true deployment' post) of
               Some i \<Rightarrow> b = field ''version'' i | None \<Rightarrow> \<not> truthy b"
    by auto
  have st: "snd (instances_loop deployment' post (field ''version'' inst)) =
            snd (instances_loop deployment' post JNull)"
    using post by (rule instances_loop_state)
  from a b st step have
    "instances_loop deployment (inst # post) JNull =
       (Inr a, snd (instances_loop deployment' post JNull))"
    "instances_loop deployment' post JNull = (Inr b, snd (instances_loop deployment' post JNull))"
    by (simp_all add: prod_eq_iff)
  with fallback_same [OF ca cb, of fallback]
  show "\<exists>a b st. instances_loop deployment (inst # post) JNull = (Inr a, st) \<and>
                instances_loop deployment' post JNull = (Inr b, st) \<and>
                (if truthy a then a else fallback) = (if truthy b then b else fallback)"
    by blast
next
  let ?P = "\<lambda>i. selects deployment i \<and> truthy (field ''version'' i)"
  let ?Q = "\<lambda>i. truthy (field ''version'' i)"
  assume h: "\<not> stateful deployment \<and> (\<forall>x\<in>set (pre @ inst # post). \<not> nullish x) \<and>
    selects deployment inst \<and> \<not> truthy (field ''version'' inst)"
  then have all: "\<forall>x\<in>set (pre @ inst # post). \<not> nullish x"
    and less: "\<forall>x\<in>set (pre @ post). \<not> nullish x"
    and same: "find ?P (pre @ inst # post) = find ?P (pre @ post)"
    and pure: "\<not> stateful deployment"
    by (auto simp: find_drop_unselected)
  from instances_loop_result [OF all, of deployment JNull]
  obtain a where a: "fst (instances_loop deployment (pre @ inst # post) JNull) = Inr a"
    and ca: "case find ?Q (tested_true deployment (pre @ inst # post)) of
               Some i \<Rightarrow> a = field ''version'' i | None \<Rightarrow> \<not> truthy a"
    by auto
  from instances_loop_result [OF less, of deployment JNull]
  obtain b where b: "fst (instances_loop deployment (pre @ post) JNull) = Inr b"
    and cb: "case find ?Q (tested_true deployment (pre @ post)) of
               Some i \<Rightarrow> b = field ''version'' i | None \<Rightarrow> \<not> truthy b"
    by auto
  have eqa: "find ?Q (tested_true deployment (pre @ inst # post)) = find ?P (pre @ post)"
    unfolding tested_true_stateless [OF pure] find_filter by (rule same)
  have eqb: "find ?Q (tested_true deployment (pre @ post)) = find ?P (pre @ post)"
    unfolding tested_true_stateless [OF pure] find_filter by (rule refl)
  from ca have ca': "case find ?P (pre @ post) of
               Some i \<Rightarrow> a = field ''version'' i | None \<Rightarrow> \<not> truthy a"
    unfolding eqa .
  from cb have cb': "case find ?P (pre @ post) of
               Some i \<Rightarrow> b = field ''version'' i | None \<Rightarrow> \<not> truthy b"
    unfolding eqb .
  from a b instances_loop_stateless [OF pure] have
    "instances_loop deployment (pre @ inst # post) JNull = (Inr a, deployment)"
    "instances_loop deployment (pre @ post) JNull = (Inr b, deployment)"
    by (simp_all add: prod_eq_iff)
  with fallback_same [OF ca' cb', of fallback]
  show "\<exists>a b. instances_loop deployment (pre @ inst # post) JNull = (Inr a, deployment) \<and>
             instances_loop deployment (pre @ post) JNull = (Inr b, deployment) \<and>
             (if truthy a then a else fallback) = (if truthy b then b else fallback)"
    by blast
qed


text \<open>
  The asset with \<^verbatim>\<open>prod-1\<close> at the empty version and \<^verbatim>\<open>prod-2\<close> at 2.0.0, with
  \<^verbatim>\<open>/^prod/\<close> and with \<^verbatim>\<open>/^prod/g\<close>.
\<close>

theorem getVersionByDeployment_falsy_only_from_asset_witness:
  "(\<exists>r. fst (getVersionByDeployment registry_env ''secret'' draft_api prod_pattern empty_world) =
          Inr r \<and> (truthy r \<or> r = JStr ''3.0.0'')) \<and>
   test prod_pattern_g ''prod-1'' = (True, prod_pattern_g\<lparr>lastIndex := 4\<rparr>) \<and>
   (\<exists>a b st. instances_loop prod_pattern_g draft_instances JNull = (Inr a, st) \<and>
             instances_loop (prod_pattern_g\<lparr>lastIndex := 4\<rparr>) (tl draft_instances) JNull =
               (Inr b, st) \<and>
             (if truthy a then a else JStr ''3.0.0'') = (if truthy b then b else JStr ''3.0.0'')) \<and>
   selects prod_pattern (hd draft_instances) \<and>
   field ''version'' (hd draft_instances) = JStr [] \<and>
   (\<exists>a b. instances_loop prod_pattern draft_instances JNull = (Inr a, prod_pattern) \<and>
          instances_loop prod_pattern (tl draft_instances) JNull = (Inr b, prod_pattern) \<and>
          (if truthy a then a else JStr ''3.0.0'') = (if truthy b then b else JStr ''3.0.0''))"
proof -
  have found: "getAsset registry_env ''secret''
      (js_string (groupId draft_api) @ ''/'' @ js_string (assetId draft_api)) empty_world =
      (Inr draft_json, snd (getAsset registry_env ''secret''
         (js_string (groupId draft_api) @ ''/'' @ js_string (assetId draft_api)) empty_world)) \<and>
    truthy draft_json \<and> field ''instances'' draft_json = JArr draft_instances \<and>
    (\<forall>i\<in>set draft_instances. \<not> nullish i)"
    using getAsset_draft by (simp add: draft_json_def draft_instances_def)
  have t: "test prod_pattern_g ''prod-1'' = (True, prod_pattern_g\<lparr>lastIndex := 4\<rparr>)"
    by (simp add: test_def prod_pattern_g_def prod_pattern_def)
  have moved: "\<not> nullish (hd draft_instances) \<and> (\<forall>x\<in>set (tl draft_instances). \<not> nullish x) \<and>
    truthy (field ''environmentName'' (hd draft_instances)) \<and>
    test prod_pattern_g (js_string (field ''environmentName'' (hd draft_instances))) =
      (True, prod_pattern_g\<lparr>lastIndex := 4\<rparr>) \<and>
    \<not> truthy (field ''version'' (hd draft_instances))"
    using t by (simp add: draft_instances_def)
  have ignored: "\<not> stateful prod_pattern \<and>
    (\<forall>x\<in>set ([] @ hd draft_instances # tl draft_instances). \<not> nullish x) \<and>
    selects prod_pattern (hd draft_instances) \<and>
    \<not> truthy (field ''version'' (hd draft_instances))"
    by (simp add: draft_instances_def selects_def prod_pattern_def)
  note stateless = getVersionByDeployment_falsy_only_from_asset
         [where E = registry_env and accessToken = "''secret''" and restApi = draft_api
            and w = empty_world and asset = draft_json and insts = draft_instances
            and deployment = prod_pattern and pre = "[]" and inst = "hd draft_instances"
            and post = "tl draft_instances" and fallback = "JStr ''3.0.0''"]
  note global = getVersionByDeployment_falsy_only_from_asset
         [where deployment = prod_pattern_g and inst = "hd draft_instances"
            and post = "tl draft_instances" and fallback = "JStr ''3.0.0''"
            and deployment' = "prod_pattern_g\<lparr>lastIndex := 4\<rparr>"]
  from stateless found have run:
    "\<exists>r. fst (getVersionByDeployment registry_env ''secret'' draft_api prod_pattern empty_world) =
            Inr r \<and> (truthy r \<or> r = field ''version'' draft_json)"
    by blast
  from stateless ignored have scan:
    "\<exists>a b. instances_loop prod_pattern ([] @ hd draft_instances # tl draft_instances) JNull =
             (Inr a, prod_pattern) \<and>
          instances_loop prod_pattern ([] @ tl draft_instances) JNull = (Inr b, prod_pattern) \<and>
          (if truthy a then a else JStr ''3.0.0'') = (if truthy b then b else JStr ''3.0.0'')"
    by blast
  from global moved have scan_g:
    "\<exists>a b st. instances_loop prod_pattern_g (hd draft_instances # tl draft_instances) JNull =
                (Inr a, st) \<and>
             instances_loop (prod_pattern_g\<lparr>lastIndex := 4\<rparr>) (tl draft_instances) JNull =
               (Inr b, st) \<and>
             (if truthy a then a else JStr ''3.0.0'') = (if truthy b then b else JStr ''3.0.0'')"
    by blast
  have top_level: "field ''version'' draft_json = JStr ''3.0.0''"
    by (simp add: draft_json_def)
  have whole: "[] @ hd draft_instances # tl draft_instances = draft_instances"
    "hd draft_instances # tl draft_instances = draft_instances"
    and rest: "[] @ tl draft_instances = tl draft_instances"
    by (simp_all add: draft_instances_def)
  have empty_version: "field ''version'' (hd draft_instances) = JStr []"
    by (simp add: draft_instances_def)
  from run have c1:
    "\<exists>r. fst (getVersionByDeployment registry_env ''secret'' draft_api prod_pattern empty_world) =
            Inr r \<and> (truthy r \<or> r = JStr ''3.0.0'')"
    unfolding top_level .
  from scan have c2:
    "\<exists>a b. instances_loop prod_pattern draft_instances JNull = (Inr a, prod_pattern) \<and>
          instances_loop prod_pattern (tl draft_instances) JNull = (Inr b, prod_pattern) \<and>
          (if truthy a then a else JStr ''3.0.0'') = (if truthy b then b else JStr ''3.0.0'')"
    unfolding append_Nil whole(2) .
  from scan_g have c3:
    "\<exists>a b st. instances_loop prod_pattern_g draft_instances JNull = (Inr a, st) \<and>
             instances_loop (prod_pattern_g\<lparr>lastIndex := 4\<rparr>) (tl draft_instances) JNull =
               (Inr b, st) \<and>
             (if truthy a then a else JStr ''3.0.0'') = (if truthy b then b else JStr ''3.0.0'')"
    unfolding whole(2) .
  from c1 c2 c3 t ignored empty_version show ?thesis
    by blast
qed

text \<open>
  The claim as it was stated, that the result is never falsy, fails for an asset with no
  instances whose own version field is the empty string: the empty string is returned.
\<close>

lemma getVersionByDeployment_bare:
  "fst (getVersionByDeployment registry_env ''secret'' bare_api prod_pattern empty_world) =
     Inr (JStr [])"
  by (simp add: getVersionByDeployment_def getAsset_def registry_env_def asset_url_def
        ANYPOINT_BASE_URI_def bearer_def emit_def ok_json_def empty_world_def bare_api_def
        shop_api_def bare_json_def)

theorem getVersionByDeployment_never_falsy_counterexample:
  "fst (getVersionByDeployment registry_env ''secret'' bare_api prod_pattern empty_world) =
     Inr (JStr []) \<and>
   \<not> truthy (JStr [])"
  using getVersionByDeployment_bare by simp

section \<open>Searching the registry\<close>

lemma spec_flatten_Cons:
  "spec_flatten (c # rest) =
     [js_string (field ''key'' c) \<mapsto> field ''value'' c] ++ spec_flatten rest"
  by (simp add: spec_flatten_def)

lemma mapCategories_loop_map_of:
  assumes "\<forall>c\<in>set cs. \<not> nullish c \<and> js_string (field ''key'' c) \<noteq> ''__proto__''"
  shows "\<exists>r. mapCategories_loop cs cats = Inr r \<and>
             map_of r = map_of cats ++ spec_flatten cs"
  using assms
proof (induction cs arbitrary: cats)
  case Nil
  then show ?case by (simp add: spec_flatten_def)
next
  case (Cons c rest)
  then have c: "\<not> nullish c" "js_string (field ''key'' c) \<noteq> ''__proto__''"
    and rest: "\<forall>c\<in>set rest. \<not> nullish c \<and> js_string (field ''key'' c) \<noteq> ''__proto__''"
    by simp_all
  from Cons.IH [OF rest, of "AList.update (js_string (field ''key'' c)) (field ''value'' c) cats"]
  obtain r where
    r: "mapCategories_loop rest
          (AList.update (js_string (field ''key'' c)) (field ''value'' c) cats) = Inr r"
    and m: "map_of r =
          map_of (AList.update (js_string (field ''key'' c)) (field ''value'' c) cats) ++
          spec_flatten rest"
    by blast
  have "map_of r = map_of cats ++ spec_flatten (c # rest)"
    unfolding m spec_flatten_Cons
    by (rule ext) (simp add: update_conv' map_add_def split: option.splits)
  with r c show ?case by simp
qed

lemma getFileByClassifier_loop_spec:
  "\<forall>f\<in>set fs. \<not> nullish f \<Longrightarrow>
   getFileByClassifier_loop fs ''fat-raml'' None = Inr (spec_canonical_file fs)"
  by (simp add: getFileByClassifier_loop_last spec_canonical_file_def split: list.splits)

lemma convert_asset_shaped:
  assumes "asset_shaped obj"
  shows "\<exists>d. convertResponseToRestApi obj = Inr d \<and> describes obj d"
proof -
  from assms obtain cs fs where
    obj: "\<not> nullish obj"
    and cs: "field ''categories'' obj = JArr cs"
      "\<forall>c\<in>set cs. \<not> nullish c \<and> js_string (field ''key'' c) \<noteq> ''__proto__''"
    and fs: "field ''files'' obj = JArr fs" "\<forall>f\<in>set fs. \<not> nullish f"
    unfolding asset_shaped_def
    by (cases "field ''categories'' obj"; cases "field ''files'' obj")
       (auto simp: list_all_iff)
  from mapCategories_loop_map_of [OF cs(2), of "[]"] obtain r where
    r: "mapCategories_loop cs [] = Inr r" "map_of r = spec_flatten cs"
    by auto
  from obj cs(1) fs r getFileByClassifier_loop_spec [OF fs(2)]
  show ?thesis
    by (simp add: convertResponseToRestApi_def describes_def)
qed

lemma searchExchange_loop_describes:
  assumes "\<forall>obj\<in>set objs. asset_shaped obj"
  shows "\<exists>ds. searchExchange_loop objs apis = Inr (apis @ ds) \<and>
              list_all2 (\<lambda>obj d. convertResponseToRestApi obj = Inr d \<and> describes obj d) objs ds"
  using assms
proof (induction objs arbitrary: apis)
  case Nil
  then show ?case by simp
next
  case (Cons obj rest)
  then have "asset_shaped obj" and rest: "\<forall>obj\<in>set rest. asset_shaped obj"
    by simp_all
  then obtain d where d: "convertResponseToRestApi obj = Inr d" "describes obj d"
    using convert_asset_shaped by blast
  from Cons.IH [OF rest, of "apis @ [d]"] obtain ds where
    "searchExchange_loop rest (apis @ [d]) = Inr (apis @ d # ds)"
    "list_all2 (\<lambda>obj d. convertResponseToRestApi obj = Inr d \<and> describes obj d) rest ds"
    by auto
  with d show ?case
    by (intro exI [of _ "d # ds"]) simp
qed

text \<open>
  Claim C6. When the registry answers the search with an array of asset objects of the
  expected shape, \<open>searchExchange\<close> returns one descriptor for each object, in the
  order of the response: the list has the length of the response, and the descriptor at
  each position is \<open>convertResponseToRestApi\<close> of the object at that position, whose
  categories are the \<^verbatim>\<open>{key, value}\<close> pairs flattened into a mapping and whose
  \<open>fatRaml\<close> is the file entry classified \<^verbatim>\<open>fat-raml\<close>. The request is the only
  effect.
\<close>

theorem searchExchange_maps_in_order:
  assumes "fetch_result E (JStr (search_url searchString)) (bearer accessToken) = Inr res"
    and "json res = Inr (JArr objs)"
    and "\<forall>obj\<in>set objs. asset_shaped obj"
  shows "\<exists>apis. searchExchange E accessToken searchString w =
                  (Inr apis,
                   w\<lparr>trace := trace w @ [Fetch (JStr (search_url searchString)) (bearer accessToken)]\<rparr>) \<and>
                length apis = length objs \<and>
                (\<forall>n<length objs. convertResponseToRestApi (objs ! n) = Inr (apis ! n) \<and>
                                 describes (objs ! n) (apis ! n))"
proof -
  from searchExchange_loop_describes [OF assms(3), of "[]"] obtain ds where
    loop: "searchExchange_loop objs [] = Inr ds"
    and rel: "list_all2 (\<lambda>obj d. convertResponseToRestApi obj = Inr d \<and> describes obj d) objs ds"
    by auto
  from assms(1,2) loop have
    "searchExchange E accessToken searchString w =
       (Inr ds, w\<lparr>trace := trace w @ [Fetch (JStr (search_url searchString)) (bearer accessToken)]\<rparr>)"
    by (simp add: searchExchange_def emit_def Let_def)
  moreover from rel have "length ds = length objs"
    by (simp add: list_all2_lengthD)
  moreover from rel have
    "\<forall>n<length objs. convertResponseToRestApi (objs ! n) = Inr (ds ! n) \<and>
                      describes (objs ! n) (ds ! n)"
    by (simp add: list_all2_conv_all_nth)
  ultimately show ?thesis by blast
qed

text \<open>
  A response of two assets: two descriptors in the same order; the repeated category
  \<^verbatim>\<open>Layer\<close> holds its last value, and the second asset, which has no such file, has
  no \<open>fatRaml\<close>.
\<close>

lemma registry_search:
  "fetch_result registry_env (JStr (search_url ''org'')) (bearer ''secret'') =
     Inr (ok_json (JArr [shop_json, docs_json]))"
  by (simp add: registry_env_def search_url_def ANYPOINT_BASE_URI_def)

lemma shop_shaped: "asset_shaped shop_json"
  by (simp add: asset_shaped_def shop_json_def two_fat_files_def)

lemma docs_shaped: "asset_shaped docs_json"
  by (simp add: asset_shaped_def docs_json_def)

theorem searchExchange_maps_in_order_witness:
  "fst (searchExchange registry_env ''secret'' ''org'' empty_world) =
     Inr [shop_descriptor, docs_descriptor] \<and>
   map_of (categories shop_descriptor) ''Layer'' = Some (JArr [JStr ''System'']) \<and>
   map_of (categories shop_descriptor) ''Team'' = Some (JArr [JStr ''Cart'']) \<and>
   externalLink (the (fatRaml shop_descriptor)) = JStr ''https://a/3.zip'' \<and>
   fatRaml docs_descriptor = None"
proof -
  have shaped: "\<forall>obj\<in>set [shop_json, docs_json]. asset_shaped obj"
    using shop_shaped docs_shaped by simp
  have body: "json (ok_json (JArr [shop_json, docs_json])) = Inr (JArr [shop_json, docs_json])"
    by (simp add: ok_json_def)
  from searchExchange_maps_in_order [OF registry_search body shaped, of empty_world]
  obtain apis where
    run: "fst (searchExchange registry_env ''secret'' ''org'' empty_world) = Inr apis"
    and len: "length apis = 2"
    and each: "\<forall>n<2. convertResponseToRestApi ([shop_json, docs_json] ! n) = Inr (apis ! n)"
    by auto
  from len obtain a b where ab: "apis = [a, b]"
    by (metis (no_types, opaque_lifting) One_nat_def Suc_1 length_0_conv length_Suc_conv)
  have "convertResponseToRestApi shop_json = Inr (apis ! 0)"
    using each [rule_format, of 0] by simp
  moreover have "convertResponseToRestApi docs_json = Inr (apis ! 1)"
    using each [rule_format, of 1] by simp
  ultimately have "apis ! 0 = shop_descriptor" and "apis ! 1 = docs_descriptor"
    using convert_shop convert_docs by simp_all
  with ab have "apis = [shop_descriptor, docs_descriptor]"
    by simp
  with run show ?thesis
    by (simp add: shop_descriptor_def docs_descriptor_def)
qed

section \<open>Downloading many assets\<close>

lemma start_promise:
  "fst (downloadRestApi_start E restApi (Some dest) w) = promise_of E dest restApi"
  by (simp add: promise_of_def downloadRestApi_start_def ensureDirSync_def Let_def
           split: option.splits)

lemma finish_result: "fst (downloadRestApi_finish E d w) = result_of E d"
  by (simp add: result_of_def downloadRestApi_finish_def writeFileSync_def
           split: download.splits sum.splits option.splits)

lemma download_result:
  "fst (downloadRestApi E restApi (Some dest) w) = result_of E (promise_of E dest restApi)"
  by (simp add: downloadRestApi_def split: prod.splits)
     (metis finish_result start_promise fst_conv)

lemma start_effects:
  "\<exists>evs. trace (snd (downloadRestApi_start E restApi d w)) = trace w @ evs \<and>
         list_all (\<lambda>ev. \<not> is_write ev) evs \<and>
         (\<forall>f. truthy (id_r restApi) \<and> fatRaml restApi = Some f \<and>
              ensureDir_error E (folder_or_default d) = None \<longrightarrow>
              Fetch (externalLink f) [] \<in> set evs) \<and>
         files (snd (downloadRestApi_start E restApi d w)) = files w"
  by (simp add: downloadRestApi_start_def ensureDirSync_def emit_def Let_def
           split: option.splits)

lemma loop_effects:
  "fst (downloadRestApis_loop E apis dest w) = map (promise_of E dest) apis \<and>
   (\<exists>evs. trace (snd (downloadRestApis_loop E apis dest w)) = trace w @ evs \<and>
          list_all (\<lambda>ev. \<not> is_write ev) evs \<and>
          (\<forall>api\<in>set apis. \<forall>f.
             truthy (id_r api) \<and> fatRaml api = Some f \<and> ensureDir_error E dest = None \<longrightarrow>
             Fetch (externalLink f) [] \<in> set evs)) \<and>
   files (snd (downloadRestApis_loop E apis dest w)) = files w"
proof (induction apis arbitrary: w)
  case Nil
  then show ?case by simp
next
  case (Cons api rest)
  obtain d w1 where s: "downloadRestApi_start E api (Some dest) w = (d, w1)"
    by (cases "downloadRestApi_start E api (Some dest) w")
  obtain ds w2 where l: "downloadRestApis_loop E rest dest w1 = (ds, w2)"
    by (cases "downloadRestApis_loop E rest dest w1")
  have ss: "snd (downloadRestApi_start E api (Some dest) w) = w1"
    using s by simp
  have sl: "snd (downloadRestApis_loop E rest dest w1) = w2"
    "fst (downloadRestApis_loop E rest dest w1) = ds"
    using l by simp_all
  from start_promise [of E api dest w] s have d: "d = promise_of E dest api"
    by simp
  from start_effects [of E api "Some dest" w] obtain evs1 where
    e1: "trace w1 = trace w @ evs1" "list_all (\<lambda>ev. \<not> is_write ev) evs1"
      "\<forall>f. truthy (id_r api) \<and> fatRaml api = Some f \<and> ensureDir_error E dest = None \<longrightarrow>
           Fetch (externalLink f) [] \<in> set evs1"
      "files w1 = files w"
    unfolding ss by (auto simp: folder_or_default_def)
  from Cons.IH [of w1] obtain evs2 where
    e2: "ds = map (promise_of E dest) rest" "trace w2 = trace w1 @ evs2"
      "list_all (\<lambda>ev. \<not> is_write ev) evs2"
      "\<forall>api\<in>set rest. \<forall>f.
         truthy (id_r api) \<and> fatRaml api = Some f \<and> ensureDir_error E dest = None \<longrightarrow>
         Fetch (externalLink f) [] \<in> set evs2"
      "files w2 = files w1"
    unfolding sl by blast
  have "trace w2 = trace w @ (evs1 @ evs2)"
    and "list_all (\<lambda>ev. \<not> is_write ev) (evs1 @ evs2)"
    and "\<forall>api\<in>set (api # rest). \<forall>f.
         truthy (id_r api) \<and> fatRaml api = Some f \<and> ensureDir_error E dest = None \<longrightarrow>
         Fetch (externalLink f) [] \<in> set (evs1 @ evs2)"
    using e1 e2 by auto
  with s l d e1 e2 show ?case
    by (simp del: set_append set_simps)
qed

lemma finish_effects:
  "\<exists>evs. trace (snd (downloadRestApi_finish E d w)) = trace w @ evs \<and>
         list_all is_write evs \<and>
         dom (files w) \<subseteq> dom (files (snd (downloadRestApi_finish E d w))) \<and>
         (\<forall>link zipFilePath res. d = Awaiting link zipFilePath \<and> result_of E d = Inr (Some res) \<longrightarrow>
            (\<exists>buf. arrayBuffer res = Inr buf \<and> evs = [WriteFile zipFilePath buf] \<and>
                   zipFilePath \<in> dom (files (snd (downloadRestApi_finish E d w)))))"
  by (auto simp: result_of_def downloadRestApi_finish_def writeFileSync_def emit_def
           split: download.splits sum.splits option.splits)


lemma finish_all_effects:
  "fst (finish_all E ds w) = map (result_of E) ds \<and>
   (\<exists>evs. trace (snd (finish_all E ds w)) = trace w @ evs \<and>
          list_all is_write evs \<and>
          (\<forall>link zipFilePath res.
             Awaiting link zipFilePath \<in> set ds \<and>
             result_of E (Awaiting link zipFilePath) = Inr (Some res) \<longrightarrow>
               (\<exists>buf. arrayBuffer res = Inr buf \<and> WriteFile zipFilePath buf \<in> set evs \<and>
                      zipFilePath \<in> dom (files (snd (finish_all E ds w)))))) \<and>
   dom (files w) \<subseteq> dom (files (snd (finish_all E ds w)))"
proof (induction ds arbitrary: w)
  case Nil
  then show ?case by simp
next
  case (Cons d rest)
  obtain r w1 where f: "downloadRestApi_finish E d w = (r, w1)"
    by (cases "downloadRestApi_finish E d w")
  obtain rs w2 where a: "finish_all E rest w1 = (rs, w2)"
    by (cases "finish_all E rest w1")
  from finish_result [of E d w] f have r: "r = result_of E d"
    by simp
  have sf: "snd (downloadRestApi_finish E d w) = w1"
    using f by simp
  have sa: "snd (finish_all E rest w1) = w2" "fst (finish_all E rest w1) = rs"
    using a by simp_all
  from finish_effects [of E d w] obtain evs1 where
    e1: "trace w1 = trace w @ evs1" "list_all is_write evs1" "dom (files w) \<subseteq> dom (files w1)"
      "\<forall>link zipFilePath res. d = Awaiting link zipFilePath \<and> result_of E d = Inr (Some res) \<longrightarrow>
            (\<exists>buf. arrayBuffer res = Inr buf \<and> evs1 = [WriteFile zipFilePath buf] \<and>
                   zipFilePath \<in> dom (files w1))"
    unfolding sf by blast
  from Cons.IH [of w1] obtain evs2 where
    e2: "rs = map (result_of E) rest" "trace w2 = trace w1 @ evs2" "list_all is_write evs2"
      "\<forall>link zipFilePath res.
             Awaiting link zipFilePath \<in> set rest \<and>
             result_of E (Awaiting link zipFilePath) = Inr (Some res) \<longrightarrow>
               (\<exists>buf. arrayBuffer res = Inr buf \<and> WriteFile zipFilePath buf \<in> set evs2 \<and>
                      zipFilePath \<in> dom (files w2))"
      "dom (files w1) \<subseteq> dom (files w2)"
    unfolding sa by blast
  have t: "trace w2 = trace w @ (evs1 @ evs2)" and lw: "list_all is_write (evs1 @ evs2)"
    using e1 e2 by simp_all
  have wr: "\<forall>link zipFilePath res.
             Awaiting link zipFilePath \<in> set (d # rest) \<and>
             result_of E (Awaiting link zipFilePath) = Inr (Some res) \<longrightarrow>
               (\<exists>buf. arrayBuffer res = Inr buf \<and> WriteFile zipFilePath buf \<in> set (evs1 @ evs2) \<and>
                      zipFilePath \<in> dom (files w2))"
  proof (intro allI impI)
    fix link zipFilePath res
    assume h: "Awaiting link zipFilePath \<in> set (d # rest) \<and>
             result_of E (Awaiting link zipFilePath) = Inr (Some res)"
    show "\<exists>buf. arrayBuffer res = Inr buf \<and> WriteFile zipFilePath buf \<in> set (evs1 @ evs2) \<and>
                zipFilePath \<in> dom (files w2)"
    proof (cases "d = Awaiting link zipFilePath")
      case True
      with h e1(4) obtain buf where
        "arrayBuffer res = Inr buf" "evs1 = [WriteFile zipFilePath buf]"
        "zipFilePath \<in> dom (files w1)"
        by blast
      with e2(5) show ?thesis by auto
    next
      case False
      with h have "Awaiting link zipFilePath \<in> set rest" by simp
      with h e2(4) obtain buf where
        "arrayBuffer res = Inr buf" "WriteFile zipFilePath buf \<in> set evs2"
        "zipFilePath \<in> dom (files w2)"
        by blast
      then show ?thesis by auto
    qed
  qed
  from e1(3) e2(5) have "dom (files w) \<subseteq> dom (files w2)" by blast
  with f a r e2(1) t lw wr show ?case
    by (simp del: set_append)
qed

lemma pick_less: "pick sched (Suc n) < Suc n"
  by (simp add: pick_def split: list.splits)

lemma mset_arrival_order: "mset (arrival_order sched xs) = mset xs"
proof (induction sched xs rule: arrival_order.induct)
  case (1 sched)
  then show ?case by simp
next
  case (2 sched x xs)
  let ?k = "pick sched (Suc (length xs))"
  have k: "?k < length (x # xs)"
    using pick_less [of sched "length xs"] by simp
  have "mset (x # xs) = mset (take ?k (x # xs) @ (x # xs) ! ?k # drop (Suc ?k) (x # xs))"
    using id_take_nth_drop [OF k] by simp
  with "2.IH" [of ?k] show ?case
    by (simp add: Let_def)
qed

lemma set_arrival_order: "set (arrival_order sched xs) = set xs"
  using mset_arrival_order [of sched xs] by (metis set_mset_mset)

lemma arrival_order_any:
  "mset ys = mset xs \<Longrightarrow> \<exists>sched. arrival_order sched xs = ys"
proof (induction ys arbitrary: xs)
  case Nil
  then show ?case by simp
next
  case (Cons y ys)
  then have "y \<in> set xs"
    by (metis list.set_intros(1) set_mset_mset)
  then obtain k where k: "k < length xs" "xs ! k = y"
    by (auto simp: in_set_conv_nth)
  then obtain x xs' where xs: "xs = x # xs'"
    by (cases xs) auto
  let ?rest = "take k xs @ drop (Suc k) xs"
  have "mset xs = mset ?rest + {#y#}"
    using id_take_nth_drop [OF k(1)] k(2) by (metis add_mset_add_single mset.simps(2) mset_append union_mset_add_mset_right)
  with Cons.prems have "mset ys = mset ?rest"
    by simp
  from Cons.IH [OF this] obtain sched where s: "arrival_order sched ?rest = ys"
    by blast
  have "pick (k # sched) (Suc (length xs')) = k"
    using k(1) xs by (simp add: pick_def)
  with s k xs have "arrival_order (k # sched) xs = y # ys"
    by (simp add: Let_def)
  then show ?case by blast
qed

lemma settled_results_result:
  "settled_results ds = map (result_of E) (filter (\<lambda>d. \<not> is_awaiting d) ds)"
  by (induction ds rule: settled_results.induct)
     (simp_all add: result_of_def downloadRestApi_finish_def)

lemma first_error_None: "first_error rs = None \<longleftrightarrow> (\<forall>r\<in>set rs. \<exists>v. r = Inr v)"
  by (induction rs rule: first_error.induct) auto

lemma first_error_Some: "first_error rs = Some e \<Longrightarrow> Inl e \<in> set rs"
  by (induction rs rule: first_error.induct) auto


lemma outcomes_set:
  "set (settled_results ds @ map (result_of E) (arrival_order sched (filter is_awaiting ds))) =
     result_of E ` set ds"
  by (auto simp: settled_results_result [of ds E] set_arrival_order)

lemma downloadRestApis_unfold:
  "downloadRestApis E sched apis destinationFolder w =
     (case first_error
             (settled_results (map (promise_of E (folder_or_default destinationFolder)) apis) @
              map (result_of E)
                (arrival_order sched
                   (filter is_awaiting
                      (map (promise_of E (folder_or_default destinationFolder)) apis)))) of
        Some e \<Rightarrow> Inl e
      | None \<Rightarrow> Inr (folder_or_default destinationFolder),
      snd (finish_all E
             (arrival_order sched
                (filter is_awaiting
                   (map (promise_of E (folder_or_default destinationFolder)) apis)))
             (snd (downloadRestApis_loop E apis (folder_or_default destinationFolder) w))))"
proof -
  obtain ds w1 where l:
    "downloadRestApis_loop E apis (folder_or_default destinationFolder) w = (ds, w1)"
    by (cases "downloadRestApis_loop E apis (folder_or_default destinationFolder) w")
  from loop_effects [of E apis "folder_or_default destinationFolder" w] l
  have ds: "ds = map (promise_of E (folder_or_default destinationFolder)) apis"
    by simp
  obtain late w2 where f:
    "finish_all E (arrival_order sched (filter is_awaiting ds)) w1 = (late, w2)"
    by (cases "finish_all E (arrival_order sched (filter is_awaiting ds)) w1")
  from finish_all_effects [of E "arrival_order sched (filter is_awaiting ds)" w1] f
  have late: "late = map (result_of E) (arrival_order sched (filter is_awaiting ds))"
    by simp
  from l f show ?thesis
    unfolding downloadRestApis_def
    by (simp add: ds [symmetric] late [symmetric] split: option.splits)
qed

lemma awaiting_requested:
  "is_awaiting (promise_of E dest api) \<longleftrightarrow> requested E dest api"
  by (auto simp: promise_of_def requested_def downloadRestApi_start_def ensureDirSync_def
        emit_def Let_def folder_or_default_def split: option.splits)

lemma arrival_order_map: "arrival_order sched (map f xs) = map f (arrival_order sched xs)"
proof (induction sched xs rule: arrival_order.induct)
  case (1 sched)
  then show ?case by simp
next
  case (2 sched x xs)
  let ?k = "pick sched (Suc (length xs))"
  have k: "?k < length (x # xs)"
    using pick_less [of sched "length xs"] by simp
  have "arrival_order (tl sched) (take ?k (map f (x # xs)) @ drop (Suc ?k) (map f (x # xs))) =
        map f (arrival_order (tl sched) (take ?k (x # xs) @ drop (Suc ?k) (x # xs)))"
    using "2.IH" [of ?k] by (simp add: take_map drop_map del: take.simps drop.simps list.map)
  moreover have "map f (x # xs) ! ?k = f ((x # xs) ! ?k)"
    using k by (rule nth_map)
  ultimately show ?case
    by (simp add: Let_def del: take.simps drop.simps nth.simps)
qed

lemma mset_settle_order: "mset (settle_order E sched dest apis) = mset apis"
  by (simp add: settle_order_def mset_arrival_order)

lemma outcomes_settle_order:
  "settled_results (map (promise_of E dest) apis) @
   map (result_of E)
     (arrival_order sched (filter is_awaiting (map (promise_of E dest) apis))) =
   map (\<lambda>api. result_of E (promise_of E dest api)) (settle_order E sched dest apis)"
proof -
  have "filter is_awaiting (map (promise_of E dest) apis) =
          map (promise_of E dest) (filter (requested E dest) apis)"
    by (simp add: filter_map o_def awaiting_requested)
  moreover have "filter (\<lambda>d. \<not> is_awaiting d) (map (promise_of E dest) apis) =
          map (promise_of E dest) (filter (\<lambda>api. \<not> requested E dest api) apis)"
    by (simp add: filter_map o_def awaiting_requested)
  ultimately show ?thesis
    by (simp add: settled_results_result [of _ E] settle_order_def arrival_order_map o_def)
qed

lemma first_error_map:
  "first_error (map f xs) =
     (case find (\<lambda>x. isl (f x)) xs of None \<Rightarrow> None | Some x \<Rightarrow> Some (projl (f x)))"
proof (induction xs)
  case Nil
  then show ?case by simp
next
  case (Cons x xs)
  then show ?case by (cases "f x") simp_all
qed

text \<open>
  Claim C1, as amended. Let the destination be the folder the caller passes, or
  \<^verbatim>\<open>download\<close> when none is passed. For every order in which the responses arrive:
  \<^item> the effects of \<open>downloadRestApis\<close> are those of its loop, which contain no file
    write and contain the request of every descriptor that has an id and an archive entry
    (given that ensuring the folder succeeds), followed by file writes only: every
    download is launched before any of them is awaited;
  \<^item> the call resolves to the destination exactly when every single download succeeds;
  \<^item> otherwise it rejects with the error of the first download to fail in the order the
    downloads settle: first those that were settled when the loop ended, in the order of
    the array, then those whose request was issued, in the order their responses arrive;
  \<^item> no file that existed is removed, and the file of every download that succeeded has
    been written and exists at the end, also when the call rejects.

  Whether a download succeeds is \<open>downloadRestApi\<close>'s own outcome, in which the status
  of the response plays no part.
\<close>

theorem downloadRestApis_all_or_first_error:
  assumes dest: "dest = (case destinationFolder of None \<Rightarrow> ''download'' | Some d \<Rightarrow> d)"
  shows "(\<exists>launched written.
      trace (snd (downloadRestApis_loop E restApi dest w)) =
        trace w @ launched \<and>
      trace (snd (downloadRestApis E sched restApi destinationFolder w)) =
        trace w @ launched @ written \<and>
      list_all (\<lambda>ev. \<not> is_write ev) launched \<and> list_all is_write written \<and>
      (\<forall>api\<in>set restApi. \<forall>f.
         truthy (id_r api) \<and> fatRaml api = Some f \<and>
         ensureDir_error E dest = None \<longrightarrow>
         Fetch (externalLink f) [] \<in> set launched)) \<and>
   (fst (downloadRestApis E sched restApi destinationFolder w) =
      Inr dest \<longleftrightarrow>
    (\<forall>api\<in>set restApi.
       \<exists>r. fst (downloadRestApi E api (Some dest) w) = Inr r)) \<and>
   (fst (downloadRestApis E sched restApi destinationFolder w) =
      Inr dest \<or>
    (\<exists>e. fst (downloadRestApis E sched restApi destinationFolder w) = Inl e \<and>
         (\<exists>api\<in>set restApi.
            fst (downloadRestApi E api (Some dest) w) = Inl e))) \<and>
   fst (downloadRestApis E sched restApi destinationFolder w) =
     (case find (\<lambda>api. isl (fst (downloadRestApi E api (Some dest) w)))
             (settle_order E sched dest restApi) of
        None \<Rightarrow> Inr dest
      | Some api \<Rightarrow> Inl (projl (fst (downloadRestApi E api (Some dest) w)))) \<and>
   mset (settle_order E sched dest restApi) = mset restApi \<and>
   dom (files w) \<subseteq> dom (files (snd (downloadRestApis E sched restApi destinationFolder w))) \<and>
   (\<forall>api\<in>set restApi. \<forall>r.
      truthy (id_r api) \<and>
      fst (downloadRestApi E api (Some dest) w) = Inr r \<longrightarrow>
        (\<exists>buf. WriteFile (path_join E dest
                            (js_string (assetId api) @ ''.zip'')) buf
                 \<in> set (trace (snd (downloadRestApis E sched restApi destinationFolder w))) \<and>
               path_join E dest
                 (js_string (assetId api) @ ''.zip'')
                 \<in> dom (files (snd (downloadRestApis E sched restApi destinationFolder w)))))"
proof -
  have folder: "folder_or_default destinationFolder = dest"
    using dest by (simp add: folder_or_default_cases)
  let ?ds = "map (promise_of E dest) restApi"
  let ?w1 = "snd (downloadRestApis_loop E restApi dest w)"
  let ?late = "arrival_order sched (filter is_awaiting ?ds)"
  let ?w2 = "snd (finish_all E ?late ?w1)"
  let ?outcomes = "settled_results ?ds @ map (result_of E) ?late"
  have run: "downloadRestApis E sched restApi destinationFolder w =
               (case first_error ?outcomes of Some e \<Rightarrow> Inl e | None \<Rightarrow> Inr dest, ?w2)"
    using downloadRestApis_unfold [of E sched restApi destinationFolder w]
    unfolding folder .
  have world: "snd (downloadRestApis E sched restApi destinationFolder w) = ?w2"
    unfolding run by simp
  have outcomes: "set ?outcomes = (\<lambda>api. fst (downloadRestApi E api (Some dest) w)) ` set restApi"
    unfolding outcomes_set by (simp add: download_result image_image)
  from loop_effects [of E restApi dest w] obtain launched where
    l: "trace ?w1 = trace w @ launched" "list_all (\<lambda>ev. \<not> is_write ev) launched"
      "\<forall>api\<in>set restApi. \<forall>f.
         truthy (id_r api) \<and> fatRaml api = Some f \<and> ensureDir_error E dest = None \<longrightarrow>
         Fetch (externalLink f) [] \<in> set launched"
      "files ?w1 = files w"
    by blast
  from finish_all_effects [of E ?late ?w1] obtain written where
    f: "trace ?w2 = trace ?w1 @ written" "list_all is_write written"
      "\<forall>link zipFilePath res.
             Awaiting link zipFilePath \<in> set ?late \<and>
             result_of E (Awaiting link zipFilePath) = Inr (Some res) \<longrightarrow>
               (\<exists>buf. arrayBuffer res = Inr buf \<and> WriteFile zipFilePath buf \<in> set written \<and>
                      zipFilePath \<in> dom (files ?w2))"
      "dom (files ?w1) \<subseteq> dom (files ?w2)"
    by blast
  have order: "\<exists>launched written.
      trace ?w1 = trace w @ launched \<and>
      trace (snd (downloadRestApis E sched restApi destinationFolder w)) =
        trace w @ launched @ written \<and>
      list_all (\<lambda>ev. \<not> is_write ev) launched \<and> list_all is_write written \<and>
      (\<forall>api\<in>set restApi. \<forall>f.
         truthy (id_r api) \<and> fatRaml api = Some f \<and> ensureDir_error E dest = None \<longrightarrow>
         Fetch (externalLink f) [] \<in> set launched)"
    unfolding world using l f(1,2) by (intro exI [of _ launched] exI [of _ written]) simp
  have resolves: "fst (downloadRestApis E sched restApi destinationFolder w) = Inr dest \<longleftrightarrow>
    (\<forall>api\<in>set restApi. \<exists>r. fst (downloadRestApi E api (Some dest) w) = Inr r)"
  proof -
    have "fst (downloadRestApis E sched restApi destinationFolder w) = Inr dest \<longleftrightarrow>
            first_error ?outcomes = None"
      unfolding run by (simp split: option.splits)
    also have "\<dots> \<longleftrightarrow> (\<forall>r\<in>set ?outcomes. \<exists>v. r = Inr v)"
      by (rule first_error_None)
    also have "\<dots> \<longleftrightarrow> (\<forall>api\<in>set restApi. \<exists>r. fst (downloadRestApi E api (Some dest) w) = Inr r)"
      unfolding outcomes by blast
    finally show ?thesis .
  qed
  have rejects: "fst (downloadRestApis E sched restApi destinationFolder w) = Inr dest \<or>
    (\<exists>e. fst (downloadRestApis E sched restApi destinationFolder w) = Inl e \<and>
         (\<exists>api\<in>set restApi. fst (downloadRestApi E api (Some dest) w) = Inl e))"
  proof (cases "first_error ?outcomes")
    case None
    then show ?thesis
      unfolding run by simp
  next
    case (Some e)
    then have "Inl e \<in> set ?outcomes"
      by (rule first_error_Some)
    then have "\<exists>api\<in>set restApi. fst (downloadRestApi E api (Some dest) w) = Inl e"
      unfolding outcomes by force
    with Some show ?thesis
      unfolding run by simp
  qed
  have first: "fst (downloadRestApis E sched restApi destinationFolder w) =
     (case find (\<lambda>api. isl (fst (downloadRestApi E api (Some dest) w)))
             (settle_order E sched dest restApi) of
        None \<Rightarrow> Inr dest
      | Some api \<Rightarrow> Inl (projl (fst (downloadRestApi E api (Some dest) w))))"
    unfolding run outcomes_settle_order first_error_map
    by (simp add: download_result split: option.splits)
  have perm: "mset (settle_order E sched dest restApi) = mset restApi"
    by (rule mset_settle_order)
  have kept: "dom (files w) \<subseteq> dom (files (snd (downloadRestApis E sched restApi destinationFolder w)))"
    unfolding world using l(4) f(4) by simp
  have written_all: "\<forall>api\<in>set restApi. \<forall>r.
      truthy (id_r api) \<and> fst (downloadRestApi E api (Some dest) w) = Inr r \<longrightarrow>
        (\<exists>buf. WriteFile (path_join E dest (js_string (assetId api) @ ''.zip'')) buf
                 \<in> set (trace (snd (downloadRestApis E sched restApi destinationFolder w))) \<and>
               path_join E dest (js_string (assetId api) @ ''.zip'')
                 \<in> dom (files (snd (downloadRestApis E sched restApi destinationFolder w))))"
  proof (intro ballI allI impI)
    fix api r
    assume api: "api \<in> set restApi"
      and h: "truthy (id_r api) \<and> fst (downloadRestApi E api (Some dest) w) = Inr r"
    obtain w' where one: "downloadRestApi E api (Some dest) w = (Inr r, w')"
      using h by (cases "downloadRestApi E api (Some dest) w") simp
    from h one downloadRestApi_success_iff [of api E "Some dest" w r w']
    obtain g response where
      g: "fatRaml api = Some g" "ensureDir_error E dest = None" "r = Some response"
      by (auto simp: folder_or_default_def)
    let ?zip = "path_join E dest (js_string (assetId api) @ ''.zip'')"
    from h g have p: "promise_of E dest api = Awaiting (externalLink g) ?zip"
      by (simp add: promise_of_def downloadRestApi_start_def ensureDirSync_def emit_def
            Let_def folder_or_default_def)
    with api have "Awaiting (externalLink g) ?zip \<in> set ?late"
      unfolding set_arrival_order by force
    moreover from h p g have
      "result_of E (Awaiting (externalLink g) ?zip) = Inr (Some response)"
      by (simp add: download_result)
    ultimately obtain buf where
      "WriteFile ?zip buf \<in> set written" "?zip \<in> dom (files ?w2)"
      using f(3) by blast
    with f(1) show "\<exists>buf. WriteFile ?zip buf
                 \<in> set (trace (snd (downloadRestApis E sched restApi destinationFolder w))) \<and>
               ?zip \<in> dom (files (snd (downloadRestApis E sched restApi destinationFolder w)))"
      unfolding world by auto
  qed
  from order resolves rejects first perm kept written_all show ?thesis
    by (intro conjI)
qed

text \<open>
  Three downloads into the folder \<^verbatim>\<open>out\<close> that succeed, one of them the skip of a
  descriptor without id: the folder. Three downloads of which the second and the third
  fail on the network: when the responses arrive in the order of the array the error is
  that of the second, when the third answers first it is that of the third, and either
  way the file of the first exists. A download that fails on the network listed before
  one that faults in the loop for want of an archive entry: the fault is seen first.
\<close>

lemma download_shop:
  "fst (downloadRestApi mirror_env shop_api (Some dest) empty_world) =
     Inr (Some zip_response)"
  by (simp add: downloadRestApi_def downloadRestApi_start_def downloadRestApi_finish_def
        ensureDirSync_def writeFileSync_def emit_def folder_or_default_def
        shop_api_def shop_file_def mirror_env_def zip_response_def)

lemma download_gone:
  "fst (downloadRestApi mirror_env gone_api (Some dest) empty_world) =
     Inr (Some gone_response)"
  by (simp add: downloadRestApi_def downloadRestApi_start_def downloadRestApi_finish_def
        ensureDirSync_def writeFileSync_def emit_def folder_or_default_def
        gone_api_def shop_file_def mirror_env_def gone_response_def)

lemma download_lost:
  "fst (downloadRestApi mirror_env lost_api (Some dest) empty_world) =
     Inl (External ''ENOTFOUND'')"
  by (simp add: downloadRestApi_def downloadRestApi_start_def downloadRestApi_finish_def
        ensureDirSync_def writeFileSync_def emit_def folder_or_default_def
        lost_api_def shop_file_def mirror_env_def)

lemma download_reset:
  "fst (downloadRestApi mirror_env reset_api (Some dest) empty_world) =
     Inl (External ''ECONNRESET'')"
  by (simp add: downloadRestApi_def downloadRestApi_start_def downloadRestApi_finish_def
        ensureDirSync_def writeFileSync_def emit_def folder_or_default_def
        reset_api_def shop_file_def mirror_env_def)

lemma download_legacy:
  "fst (downloadRestApi mirror_env legacy_api (Some dest) empty_world) = Inr None"
  by (simp add: downloadRestApi_def downloadRestApi_start_def downloadRestApi_finish_def
        emit_def legacy_api_def)

lemma download_docs:
  "fst (downloadRestApi mirror_env docs_descriptor (Some dest) empty_world) = Inl TypeError"
  by (simp add: downloadRestApi_def downloadRestApi_start_def downloadRestApi_finish_def
        ensureDirSync_def emit_def docs_descriptor_def mirror_env_def)

lemma requested_examples:
  "requested mirror_env dest shop_api" "requested mirror_env dest lost_api"
  "requested mirror_env dest reset_api" "requested mirror_env dest gone_api"
  "\<not> requested mirror_env dest legacy_api" "\<not> requested mirror_env dest docs_descriptor"
  by (simp_all add: requested_def mirror_env_def shop_api_def lost_api_def reset_api_def
        gone_api_def legacy_api_def docs_descriptor_def)

theorem downloadRestApis_all_or_first_error_witness:
  "fst (downloadRestApis mirror_env [] [shop_api, legacy_api, gone_api] (Some ''out'') empty_world) =
     Inr ''out'' \<and>
   ''out/shop.zip''
     \<in> dom (files (snd (downloadRestApis mirror_env [] [shop_api, legacy_api, gone_api]
                          (Some ''out'') empty_world))) \<and>
   fst (downloadRestApis mirror_env [] [shop_api, lost_api, reset_api] None empty_world) =
     Inl (External ''ENOTFOUND'') \<and>
   fst (downloadRestApis mirror_env [2] [shop_api, lost_api, reset_api] None empty_world) =
     Inl (External ''ECONNRESET'') \<and>
   ''download/shop.zip''
     \<in> dom (files (snd (downloadRestApis mirror_env [2] [shop_api, lost_api, reset_api] None
                          empty_world))) \<and>
   fst (downloadRestApis mirror_env [] [lost_api, docs_descriptor] None empty_world) =
     Inl TypeError"
proof -
  have d1: "''out'' = (case Some ''out'' of None \<Rightarrow> ''download'' | Some d \<Rightarrow> d)"
    and d2: "''download'' = (case None :: string option of None \<Rightarrow> ''download'' | Some d \<Rightarrow> d)"
    by simp_all
  have ids: "truthy (id_r shop_api)"
    by (simp add: shop_api_def)
  have paths: "path_join mirror_env ''out'' (js_string (assetId shop_api) @ ''.zip'') =
                 ''out/shop.zip''"
    "path_join mirror_env ''download'' (js_string (assetId shop_api) @ ''.zip'') =
                 ''download/shop.zip''"
    by (simp_all add: mirror_env_def shop_api_def)
  note all = downloadRestApis_all_or_first_error
    [OF d1, where E = mirror_env and restApi = "[shop_api, legacy_api, gone_api]"
       and w = empty_world and sched = "[]"]
  note in_order = downloadRestApis_all_or_first_error
    [OF d2, where E = mirror_env and restApi = "[shop_api, lost_api, reset_api]"
       and w = empty_world and sched = "[]"]
  note last_first = downloadRestApis_all_or_first_error
    [OF d2, where E = mirror_env and restApi = "[shop_api, lost_api, reset_api]"
       and w = empty_world and sched = "[2]"]
  note fault = downloadRestApis_all_or_first_error
    [OF d2, where E = mirror_env and restApi = "[lost_api, docs_descriptor]"
       and w = empty_world and sched = "[]"]
  have a: "fst (downloadRestApis mirror_env [] [shop_api, legacy_api, gone_api] (Some ''out'')
                  empty_world) = Inr ''out''"
    using all download_shop download_legacy download_gone by simp
  from all have "\<forall>api\<in>set [shop_api, legacy_api, gone_api]. \<forall>r.
      truthy (id_r api) \<and>
      fst (downloadRestApi mirror_env api (Some ''out'') empty_world) = Inr r \<longrightarrow>
        path_join mirror_env ''out'' (js_string (assetId api) @ ''.zip'')
          \<in> dom (files (snd (downloadRestApis mirror_env [] [shop_api, legacy_api, gone_api]
                               (Some ''out'') empty_world)))"
    by blast
  from this [rule_format, of shop_api "Some zip_response"] ids download_shop
  have b: "''out/shop.zip''
     \<in> dom (files (snd (downloadRestApis mirror_env [] [shop_api, legacy_api, gone_api]
                          (Some ''out'') empty_world)))"
    unfolding paths by simp
  have c: "fst (downloadRestApis mirror_env [] [shop_api, lost_api, reset_api] None empty_world) =
     Inl (External ''ENOTFOUND'')"
    using in_order
    by (simp add: settle_order_def requested_examples pick_def Let_def
          download_shop download_lost download_reset)
  have d: "fst (downloadRestApis mirror_env [2] [shop_api, lost_api, reset_api] None empty_world) =
     Inl (External ''ECONNRESET'')"
    using last_first
    by (simp add: settle_order_def requested_examples pick_def Let_def
          download_shop download_lost download_reset)
  from last_first have "\<forall>api\<in>set [shop_api, lost_api, reset_api]. \<forall>r.
      truthy (id_r api) \<and>
      fst (downloadRestApi mirror_env api (Some ''download'') empty_world) = Inr r \<longrightarrow>
        path_join mirror_env ''download'' (js_string (assetId api) @ ''.zip'')
          \<in> dom (files (snd (downloadRestApis mirror_env [2] [shop_api, lost_api, reset_api] None
                               empty_world)))"
    by blast
  from this [rule_format, of shop_api "Some zip_response"] ids download_shop
  have e: "''download/shop.zip''
     \<in> dom (files (snd (downloadRestApis mirror_env [2] [shop_api, lost_api, reset_api] None
                          empty_world)))"
    unfolding paths by simp
  have f: "fst (downloadRestApis mirror_env [] [lost_api, docs_descriptor] None empty_world) =
     Inl TypeError"
    using fault
    by (simp add: settle_order_def requested_examples pick_def Let_def
          download_lost download_docs)
  from a b c d e f show ?thesis by simp
qed

text \<open>
  The claim as it was stated has a non-success status reject the call. It does not: the
  registry answers 404, the call resolves to the folder, and the four bytes of the error
  body are the content of \<^verbatim>\<open>download/gone.zip\<close>.
\<close>

theorem downloadRestApis_non_ok_counterexample:
  "fetch_result mirror_env (JStr ''https://cdn.example/gone.zip'') [] = Inr gone_response \<and>
   \<not> ok gone_response \<and> status gone_response = 404 \<and>
   downloadRestApis mirror_env [] [gone_api] None empty_world =
     (Inr ''download'',
      \<lparr> trace = [EnsureDir ''download'', Fetch (JStr ''https://cdn.example/gone.zip'') [],
                 WriteFile ''download/gone.zip'' [60, 104, 49, 62]],
        dirs = {''download''},
        files = [''download/gone.zip'' \<mapsto> [60, 104, 49, 62]] \<rparr>)"
  by (simp add: downloadRestApis_def downloadRestApi_start_def downloadRestApi_finish_def
        ensureDirSync_def writeFileSync_def emit_def folder_or_default_def
        DEFAULT_DOWNLOAD_FOLDER_def gone_api_def shop_file_def mirror_env_def gone_response_def
        empty_world_def Let_def pick_def)

end
